theory Spec2Isabelle
  imports Complex_Main "HOL-Library.Word" "HOL-Library.Log_Nat"
begin

section \<open>JavaScript values used by App.jsx\<close>

subsection \<open>Strings\<close>

text \<open>
  A JavaScript string is a sequence of UTF-16 code units. A string literal of the source
  that holds ASCII characters only is written \<open>js ''...''\<close>.
\<close>

type_synonym js_string = "16 word list"

definition js :: "string \<Rightarrow> js_string" where
  "js s = map of_char s"

text \<open>
  \<open>String.prototype.trim\<close> removes the WhiteSpace and LineTerminator code points of
  ECMAScript from both ends: TAB, VT, FF, SP, NBSP, ZWNBSP, the Unicode space separators,
  and LF, CR, LS, PS.
\<close>

definition is_white_space :: "16 word \<Rightarrow> bool" where
  "is_white_space c \<longleftrightarrow>
     c = 0x0009 \<or> c = 0x000B \<or> c = 0x000C \<or> c = 0x0020 \<or> c = 0x00A0 \<or> c = 0xFEFF \<or>
     c = 0x1680 \<or> (0x2000 \<le> c \<and> c \<le> 0x200A) \<or> c = 0x202F \<or> c = 0x205F \<or> c = 0x3000"

definition is_line_terminator :: "16 word \<Rightarrow> bool" where
  "is_line_terminator c \<longleftrightarrow> c = 0x000A \<or> c = 0x000D \<or> c = 0x2028 \<or> c = 0x2029"

definition trimmable :: "16 word \<Rightarrow> bool" where
  "trimmable c \<longleftrightarrow> is_white_space c \<or> is_line_terminator c"

definition trim :: "js_string \<Rightarrow> js_string" where
  "trim s = rev (dropWhile trimmable (rev (dropWhile trimmable s)))"

text \<open>
  Truthiness of a value that is \<open>null\<close>/\<open>undefined\<close> (\<open>None\<close>) or a string: the empty
  string is falsy too. \<open>a || b\<close> on such a value picks \<open>b\<close> when \<open>a\<close> is falsy.
\<close>

definition truthy :: "js_string option \<Rightarrow> bool" where
  "truthy v \<longleftrightarrow> (case v of None \<Rightarrow> False | Some s \<Rightarrow> s \<noteq> [])"

definition or_else :: "js_string option \<Rightarrow> js_string \<Rightarrow> js_string" where
  "or_else v d = (case v of None \<Rightarrow> d | Some s \<Rightarrow> if s = [] then d else s)"

subsection \<open>Numbers\<close>

text \<open>
  A JavaScript number is an IEEE 754 double: a finite value, \<open>Infinity\<close>, \<open>-Infinity\<close> or
  \<open>NaN\<close>. A finite double is a rational \<open>m * 2 ^ e\<close> with \<open>\<bar>m\<bar> < 2 ^ 53\<close>,
  \<open>- 1074 \<le> e\<close> and magnitude below \<open>2 ^ 1024\<close>. The two zeros are one value here: they
  differ only in the sign of a zero result, which no sum or product below depends on.

  An arithmetic operation gives the exact result rounded to the nearest double, ties to
  the double with the even significand. \<open>binade a\<close> is the exponent \<open>E\<close> with
  \<open>2 ^ E \<le> a < 2 ^ (E + 1)\<close>; the doubles around \<open>a\<close> are the multiples of
  \<open>2 ^ (E - 52)\<close>, or of \<open>2 ^ (- 1074)\<close> in the subnormal range. A rounded magnitude of
  \<open>2 ^ 1024\<close> or more overflows to an infinity.
\<close>

datatype number = Finite rat | Infinity | NegInfinity | NaN

definition binade :: "rat \<Rightarrow> int" where
  "binade a = (if 1 \<le> a then bitlen \<lfloor>a\<rfloor> - 1 else - bitlen (\<lceil>1 / a\<rceil> - 1))"

definition round_half_even :: "rat \<Rightarrow> int" where
  "round_half_even y =
     (let q = \<lfloor>y\<rfloor>; f = y - of_int q
      in if f < 1 / 2 then q else if 1 / 2 < f then q + 1 else if even q then q else q + 1)"

definition round_finite :: "rat \<Rightarrow> rat" where
  "round_finite x =
     (if x = 0 then 0
      else let e = max (binade \<bar>x\<bar> - 52) (- 1074)
           in sgn x * of_int (round_half_even (\<bar>x\<bar> / 2 powi e)) * 2 powi e)"

definition to_number :: "rat \<Rightarrow> number" where
  "to_number x =
     (let r = round_finite x
      in if 2 ^ 1024 \<le> r then Infinity else if r \<le> - (2 ^ 1024) then NegInfinity else Finite r)"

text \<open>
  A decimal literal of the source denotes the double nearest to it: \<open>12.50\<close> is
  \<open>25 / 2\<close> exactly, while \<open>0.1\<close> is \<open>3602879701896397 / 2 ^ 55\<close>.
\<close>

definition literal :: "rat \<Rightarrow> number" where
  "literal x = to_number x"

text \<open>The operators \<open>+\<close> and \<open>*\<close> on numbers.\<close>

fun js_add :: "number \<Rightarrow> number \<Rightarrow> number" where
  "js_add NaN y = NaN"
| "js_add x NaN = NaN"
| "js_add Infinity NegInfinity = NaN"
| "js_add NegInfinity Infinity = NaN"
| "js_add Infinity y = Infinity"
| "js_add x Infinity = Infinity"
| "js_add NegInfinity y = NegInfinity"
| "js_add x NegInfinity = NegInfinity"
| "js_add (Finite a) (Finite b) = to_number (a + b)"

fun negate :: "number \<Rightarrow> number" where
  "negate (Finite a) = Finite (- a)"
| "negate Infinity = NegInfinity"
| "negate NegInfinity = Infinity"
| "negate NaN = NaN"

fun times_infinity :: "number \<Rightarrow> number" where
  "times_infinity (Finite a) = (if a = 0 then NaN else if 0 < a then Infinity else NegInfinity)"
| "times_infinity Infinity = Infinity"
| "times_infinity NegInfinity = NegInfinity"
| "times_infinity NaN = NaN"

fun js_mul :: "number \<Rightarrow> number \<Rightarrow> number" where
  "js_mul (Finite a) (Finite b) = to_number (a * b)"
| "js_mul Infinity y = times_infinity y"
| "js_mul NegInfinity y = negate (times_infinity y)"
| "js_mul NaN y = NaN"
| "js_mul x Infinity = times_infinity x"
| "js_mul x NegInfinity = negate (times_infinity x)"
| "js_mul x NaN = NaN"

text \<open>
  A quantity is a number that holds an integer. The sum of two such numbers is the
  rounded exact sum, again an integer; taking its integer part changes the type only.
  The code adds 1 to a quantity and nothing else: from \<open>2 ^ 53\<close> on the doubles are at
  least 2 apart, so the sum is rounded to a neighbouring double and never reaches
  \<open>2 ^ 1024\<close>.
\<close>

definition js_add_int :: "int \<Rightarrow> int \<Rightarrow> int" where
  "js_add_int a b = \<lfloor>round_finite (of_int a + of_int b)\<rfloor>"

section \<open>Data of the application\<close>

text \<open>
  Prices and totals are numbers; a quantity is a number holding an integer, kept as that
  integer.
\<close>

record pizza =
  id' :: int
  name :: js_string
  description :: js_string
  price :: number

text \<open>A cart entry is \<open>{ ...pizza, quantity }\<close>: the pizza's fields and a quantity.\<close>

record cart_item = pizza +
  quantity :: int

type_synonym cart = "cart_item list"

definition MOCK_PIZZAS :: "pizza list" where
  "MOCK_PIZZAS =
    [\<lparr>id' = 1, name = js ''Margherita'',
      description = js ''Classic tomato, mozzarella, and basil.'', price = literal (25 / 2)\<rparr>,
     \<lparr>id' = 2, name = js ''Pepperoni Feast'',
      description = js ''Loaded with spicy pepperoni.'', price = literal 15\<rparr>,
     \<lparr>id' = 3, name = js ''Veggie Supreme'',
      description = js ''Mushrooms, onions, peppers, olives.'', price = literal (29 / 2)\<rparr>,
     \<lparr>id' = 4, name = js ''Hawaiian Delight'',
      description = js ''Ham and pineapple.'', price = literal 16\<rparr>]"

section \<open>State of the application\<close>

text \<open>
  The payload of \<open>submitOrder\<close>, the argument \<open>{ name, address, total }\<close> that OrderForm
  passes to \<open>onSubmit\<close>, the value \<open>submitOrder\<close> resolves with, the confirmation object
  and the value a promise rejects with (its \<open>message\<close> may be missing).
\<close>

record order_line =
  pizzaId :: int
  line_quantity :: int

record order_payload =
  customerName :: js_string
  address :: js_string
  items :: "order_line list"
  total :: number

record form_data =
  form_name :: js_string
  form_address :: js_string
  form_total :: number

record response =
  orderId :: js_string
  status :: js_string
  timestamp :: js_string

record confirmation =
  conf_orderId :: js_string
  conf_timestamp :: js_string
  conf_total :: number

record rejection =
  message :: "js_string option"

text \<open>
  The seven \<open>useState\<close> cells of \<open>App\<close>, and around them what the component has asked of
  its two services: the number of calls of \<open>fetchPizzas\<close>, the number of runs of
  \<open>loadMenu\<close> suspended at their \<open>await\<close>, the payloads passed to \<open>submitOrder\<close> in
  order, and the runs of \<open>handleOrderSubmit\<close> suspended at their \<open>await\<close>, each with the
  argument it was called with (the code after the \<open>await\<close> reads \<open>total\<close> from it).
\<close>

record app_state =
  pizzas :: "pizza list"
  cart :: cart
  isPizzaLoading :: bool
  pizzaError :: "js_string option"
  isSubmitting :: bool
  submissionError :: "js_string option"
  orderConfirmation :: "confirmation option"

record session = app_state +
  fetchCalls :: nat
  menuAwaiting :: nat
  submitCalls :: "order_payload list"
  awaiting :: "form_data list"

definition initial :: session where
  "initial =
     \<lparr>pizzas = [], cart = [], isPizzaLoading = True, pizzaError = None,
      isSubmitting = False, submissionError = None, orderConfirmation = None,
      fetchCalls = 0, menuAwaiting = 0, submitCalls = [], awaiting = []\<rparr>"

section \<open>Loading the menu\<close>

text \<open>
  \<open>loadMenu\<close> up to its \<open>await\<close>, and the two ways it continues. The effect has the
  dependency list \<open>[]\<close>: it runs once, after the first render.
\<close>

definition loadMenu :: "session \<Rightarrow> session" where
  "loadMenu s = s\<lparr>fetchCalls := fetchCalls s + 1, menuAwaiting := menuAwaiting s + 1\<rparr>"

definition loadMenu_resolved :: "pizza list \<Rightarrow> session \<Rightarrow> session" where
  "loadMenu_resolved data s = s\<lparr>pizzas := data, isPizzaLoading := False\<rparr>"

definition loadMenu_rejected :: "rejection \<Rightarrow> session \<Rightarrow> session" where
  "loadMenu_rejected error s =
     s\<lparr>pizzaError := Some (js ''Failed to load pizza menu. Please try again later.''),
       isPizzaLoading := False\<rparr>"

definition mounted :: session where
  "mounted = loadMenu initial"

section \<open>Cart management\<close>

text \<open>
  The handlers call \<open>setCart\<close> with an updater function of the previous cart. The
  updaters are modelled first, as functions on carts.

  \<open>with_quantity pizza q\<close> is the object \<open>{ ...pizza, quantity: q }\<close>.
\<close>

definition with_quantity :: "pizza \<Rightarrow> int \<Rightarrow> cart_item" where
  "with_quantity p q = pizza.extend p (cart_item.fields q)"

text \<open>\<open>prevCart.find(item => item.id === pizza.id)\<close>: the first match, or undefined.\<close>

definition find_item :: "int \<Rightarrow> cart \<Rightarrow> cart_item option" where
  "find_item i c = List.find (\<lambda>item. id' item = i) c"

definition addToCart :: "pizza \<Rightarrow> cart \<Rightarrow> cart" where
  "addToCart p prevCart =
     (case find_item (id' p) prevCart of
        Some existingItem \<Rightarrow>
          map (\<lambda>item. if id' item = id' p
                      then item\<lparr>quantity := js_add_int (quantity item) 1\<rparr> else item)
            prevCart
      | None \<Rightarrow> prevCart @ [with_quantity p 1])"

definition setQuantity :: "int \<Rightarrow> int \<Rightarrow> cart \<Rightarrow> cart" where
  "setQuantity pid newQuantity prevCart =
     map (\<lambda>item. if id' item = pid then item\<lparr>quantity := newQuantity\<rparr> else item) prevCart"

definition removeItem :: "int \<Rightarrow> cart \<Rightarrow> cart" where
  "removeItem pid prevCart = filter (\<lambda>item. id' item \<noteq> pid) prevCart"

definition handleAddToCart :: "pizza \<Rightarrow> session \<Rightarrow> session" where
  "handleAddToCart p s = s\<lparr>cart := addToCart p (cart s), submissionError := None\<rparr>"

definition handleRemoveItem :: "int \<Rightarrow> session \<Rightarrow> session" where
  "handleRemoveItem pid s = s\<lparr>cart := removeItem pid (cart s)\<rparr>"

definition handleUpdateQuantity :: "int \<Rightarrow> int \<Rightarrow> session \<Rightarrow> session" where
  "handleUpdateQuantity pid newQuantity s =
     (if newQuantity \<le> 0 then handleRemoveItem pid s
      else s\<lparr>cart := setQuantity pid newQuantity (cart s)\<rparr>)"

section \<open>Order submission\<close>

text \<open>\<open>cart.reduce((sum, item) => sum + (item.price * item.quantity), 0)\<close>\<close>

definition cart_total :: "cart \<Rightarrow> number" where
  "cart_total c =
     foldl (\<lambda>sum item. js_add sum (js_mul (price item) (Finite (of_int (quantity item)))))
       (Finite 0) c"

definition canSubmit :: "cart \<Rightarrow> bool \<Rightarrow> js_string \<Rightarrow> js_string \<Rightarrow> bool" where
  "canSubmit c submitting nm addr \<longleftrightarrow>
     length c > 0 \<and> trim nm \<noteq> [] \<and> trim addr \<noteq> [] \<and> \<not> submitting"

text \<open>
  \<open>handleOrderSubmit\<close> up to its \<open>await\<close>: the guard, the three state updates, the payload
  and the call of \<open>submitOrder\<close>.
\<close>

definition orderPayload :: "form_data \<Rightarrow> cart \<Rightarrow> order_payload" where
  "orderPayload d c =
     \<lparr>customerName = form_name d,
      address = form_address d,
      items = map (\<lambda>item. \<lparr>pizzaId = id' item, line_quantity = quantity item\<rparr>) c,
      total = form_total d\<rparr>"

definition handleOrderSubmit :: "form_data \<Rightarrow> session \<Rightarrow> session" where
  "handleOrderSubmit d s =
     (if length (cart s) = 0 \<or> isSubmitting s then s
      else s\<lparr>isSubmitting := True, submissionError := None, orderConfirmation := None,
             submitCalls := submitCalls s @ [orderPayload d (cart s)],
             awaiting := awaiting s @ [d]\<rparr>)"

text \<open>
  The form's \<open>handleSubmit\<close>, with the name and the address typed into the form: the
  total is computed from the cart the form was rendered with.
\<close>

definition handleSubmit :: "js_string \<Rightarrow> js_string \<Rightarrow> session \<Rightarrow> session" where
  "handleSubmit nm addr s =
     (if canSubmit (cart s) (isSubmitting s) nm addr
      then handleOrderSubmit
             \<lparr>form_name = nm, form_address = addr, form_total = cart_total (cart s)\<rparr> s
      else s)"

text \<open>
  The rest of a run of \<open>handleOrderSubmit\<close> called with \<open>d\<close>, after \<open>submitOrder\<close> has
  resolved or rejected; the \<open>finally\<close> block ends both.
\<close>

definition submit_resolved :: "form_data \<Rightarrow> response \<Rightarrow> session \<Rightarrow> session" where
  "submit_resolved d r s =
     s\<lparr>orderConfirmation :=
         Some \<lparr>conf_orderId = orderId r, conf_timestamp = timestamp r, conf_total = form_total d\<rparr>,
       cart := [],
       isSubmitting := False\<rparr>"

definition failure_message :: "rejection \<Rightarrow> js_string" where
  "failure_message error =
     js ''Order submission failed: '' @ or_else (message error) (js ''Unknown Server Error'')"

definition submit_rejected :: "form_data \<Rightarrow> rejection \<Rightarrow> session \<Rightarrow> session" where
  "submit_rejected d error s =
     s\<lparr>submissionError := Some (failure_message error), isSubmitting := False\<rparr>"

section \<open>Events\<close>

text \<open>
  What can happen to a mounted \<open>App\<close>: the user invokes an operation that the rendered
  screen offers, or a pending promise settles. \<open>OrderResolved k r\<close> settles the \<open>k\<close>-th
  suspended run of \<open>handleOrderSubmit\<close>. Each event is handled to its end on the state
  that the event before it has left.
\<close>

datatype event =
    AddToCart pizza
  | UpdateQuantity int int
  | RemoveItem int
  | Submit js_string js_string
  | PlaceAnotherOrder
  | MenuResolved "pizza list"
  | MenuRejected rejection
  | OrderResolved nat response
  | OrderRejected nat rejection

text \<open>
  The render logic decides which operations are offered. With a confirmation, the screen
  holds the button \<open>Place Another Order\<close> only. Otherwise the menu cards are rendered once
  the menu is loaded without error, the summary has the quantity and remove buttons of
  the cart's entries (the model lets them pass any new quantity), and the form is there.
\<close>

fun enabled :: "session \<Rightarrow> event \<Rightarrow> bool" where
  "enabled s (AddToCart p) \<longleftrightarrow>
     orderConfirmation s = None \<and> \<not> isPizzaLoading s \<and> \<not> truthy (pizzaError s) \<and>
     p \<in> set (pizzas s)"
| "enabled s (UpdateQuantity i n) \<longleftrightarrow> orderConfirmation s = None \<and> i \<in> id' ` set (cart s)"
| "enabled s (RemoveItem i) \<longleftrightarrow> orderConfirmation s = None \<and> i \<in> id' ` set (cart s)"
| "enabled s (Submit nm addr) \<longleftrightarrow> orderConfirmation s = None"
| "enabled s PlaceAnotherOrder \<longleftrightarrow> orderConfirmation s \<noteq> None"
| "enabled s (MenuResolved data) \<longleftrightarrow> 0 < menuAwaiting s"
| "enabled s (MenuRejected error) \<longleftrightarrow> 0 < menuAwaiting s"
| "enabled s (OrderResolved k r) \<longleftrightarrow> k < length (awaiting s)"
| "enabled s (OrderRejected k error) \<longleftrightarrow> k < length (awaiting s)"

fun handle :: "event \<Rightarrow> session \<Rightarrow> session" where
  "handle (AddToCart p) s = handleAddToCart p s"
| "handle (UpdateQuantity i n) s = handleUpdateQuantity i n s"
| "handle (RemoveItem i) s = handleRemoveItem i s"
| "handle (Submit nm addr) s = handleSubmit nm addr s"
| "handle PlaceAnotherOrder s = s\<lparr>orderConfirmation := None\<rparr>"
| "handle (MenuResolved data) s =
     (case menuAwaiting s of
        0 \<Rightarrow> s
      | Suc n \<Rightarrow> (loadMenu_resolved data s)\<lparr>menuAwaiting := n\<rparr>)"
| "handle (MenuRejected error) s =
     (case menuAwaiting s of
        0 \<Rightarrow> s
      | Suc n \<Rightarrow> (loadMenu_rejected error s)\<lparr>menuAwaiting := n\<rparr>)"
| "handle (OrderResolved k r) s =
     (case drop k (awaiting s) of
        [] \<Rightarrow> s
      | d # rest \<Rightarrow> (submit_resolved d r s)\<lparr>awaiting := take k (awaiting s) @ rest\<rparr>)"
| "handle (OrderRejected k error) s =
     (case drop k (awaiting s) of
        [] \<Rightarrow> s
      | d # rest \<Rightarrow> (submit_rejected d error s)\<lparr>awaiting := take k (awaiting s) @ rest\<rparr>)"

text \<open>
  A settlement continues a suspended run and takes it off the list; without such a run
  there is nothing to continue. An event that the screen does not offer, or a settlement
  of a promise that is not pending, does not happen: the session stays as it is.
\<close>

definition step :: "session \<Rightarrow> event \<Rightarrow> session" where
  "step s e = (if enabled s e then handle e s else s)"

definition run :: "session \<Rightarrow> event list \<Rightarrow> session" where
  "run s es = foldl step s es"

text \<open>
  The cart operations as the handlers perform them, whatever the screen shows: a list
  of operations is run by calling the handler of each in turn.
\<close>

fun is_cart_op :: "event \<Rightarrow> bool" where
  "is_cart_op (AddToCart p) = True"
| "is_cart_op (UpdateQuantity i n) = True"
| "is_cart_op (RemoveItem i) = True"
| "is_cart_op _ = False"

definition apply_ops :: "session \<Rightarrow> event list \<Rightarrow> session" where
  "apply_ops s es = foldl (\<lambda>s' e. handle e s') s es"

text \<open>The invariant of the cart: one line per id, every quantity at least 1.\<close>

definition cart_ok :: "cart \<Rightarrow> bool" where
  "cart_ok c \<longleftrightarrow> distinct (map id' c) \<and> list_all (\<lambda>item. 1 \<le> quantity item) c"

text \<open>
  What holds of every session that a mounted \<open>App\<close> can reach. One call of
  \<open>fetchPizzas\<close> has been made, and \<open>loadMenu\<close> is suspended exactly while the menu is
  loading; nothing is in the cart, in flight or confirmed before the menu has loaded, and
  a failed load leaves the menu empty. One run of \<open>handleOrderSubmit\<close> is suspended
  exactly while \<open>isSubmitting\<close> holds, it holds the total of the last payload sent, and
  there is neither an error nor a confirmation then. With a confirmation the cart is
  empty and there is no error.
\<close>

definition session_ok :: "session \<Rightarrow> bool" where
  "session_ok s \<longleftrightarrow>
     fetchCalls s = 1 \<and>
     menuAwaiting s = (if isPizzaLoading s then 1 else 0) \<and>
     (isPizzaLoading s \<longrightarrow>
        pizzas s = [] \<and> pizzaError s = None \<and> cart s = [] \<and> \<not> isSubmitting s \<and>
        orderConfirmation s = None) \<and>
     (pizzaError s \<noteq> None \<longrightarrow> pizzas s = []) \<and>
     length (awaiting s) = (if isSubmitting s then 1 else 0) \<and>
     (isSubmitting s \<longrightarrow>
        submissionError s = None \<and> orderConfirmation s = None \<and> submitCalls s \<noteq> [] \<and>
        map form_total (awaiting s) = [total (last (submitCalls s))]) \<and>
     (orderConfirmation s \<noteq> None \<longrightarrow> cart s = [] \<and> submissionError s = None)"

text \<open>Events that leave the cart alone: all but the cart operations and a resolved order.\<close>

fun keeps_cart :: "event \<Rightarrow> bool" where
  "keeps_cart (AddToCart p) = False"
| "keeps_cart (UpdateQuantity i n) = False"
| "keeps_cart (RemoveItem i) = False"
| "keeps_cart (OrderResolved k r) = False"
| "keeps_cart _ = True"

text \<open>
  When the total needs no rounding: every price is finite, and every product of price and
  quantity and every partial sum, starting from \<open>acc\<close>, is a double as it stands.
\<close>

definition is_double :: "rat \<Rightarrow> bool" where
  "is_double x \<longleftrightarrow> round_finite x = x \<and> \<bar>x\<bar> < 2 ^ 1024"

fun finite_value :: "number \<Rightarrow> rat" where
  "finite_value (Finite a) = a"
| "finite_value _ = 0"

fun unrounded :: "rat \<Rightarrow> cart \<Rightarrow> bool" where
  "unrounded acc [] = True"
| "unrounded acc (item # c) =
     (case price item of
        Finite a \<Rightarrow>
          is_double (a * of_int (quantity item)) \<and>
          is_double (acc + a * of_int (quantity item)) \<and>
          unrounded (acc + a * of_int (quantity item)) c
      | _ \<Rightarrow> False)"

section \<open>The order of the cart's lines, following the specification\<close>

text \<open>
  The specification describes the order of the lines in words: AddItem leaves the order
  as it is when the item has a line and puts the new line at the end otherwise, RemoveItem
  takes the line out, and SetQuantity with a quantity of zero or less behaves as
  RemoveItem. \<open>first_add_order\<close> is that description, on item ids alone.
\<close>

fun first_add_step :: "int list \<Rightarrow> event \<Rightarrow> int list" where
  "first_add_step ids (AddToCart p) = (if id' p \<in> set ids then ids else ids @ [id' p])"
| "first_add_step ids (UpdateQuantity i n) = (if n \<le> 0 then removeAll i ids else ids)"
| "first_add_step ids (RemoveItem i) = removeAll i ids"
| "first_add_step ids _ = ids"

definition first_add_order :: "event list \<Rightarrow> int list" where
  "first_add_order es = foldl first_add_step [] es"

section \<open>The scenario of the specification\<close>

text \<open>A catalog of two items, A at 10 and B at 5, and a customer.\<close>

definition item_A :: pizza where
  "item_A = \<lparr>id' = 1, name = js ''A'', description = js ''first'', price = Finite 10\<rparr>"

definition item_B :: pizza where
  "item_B = \<lparr>id' = 2, name = js ''B'', description = js ''second'', price = Finite 5\<rparr>"

definition catalog :: "pizza list" where
  "catalog = [item_A, item_B]"

definition ordering :: "event list" where
  "ordering = [MenuResolved catalog, AddToCart item_A, AddToCart item_A, AddToCart item_B]"

definition submitting :: "event list" where
  "submitting = ordering @ [Submit (js ''Ann'') (js ''1 Main St'')]"

text \<open>
  A second catalog: one item whose price is written \<open>0.1\<close>, ordered three times. And the largest quantity up to which every integer is a double.
\<close>

definition item_C :: pizza where
  "item_C =
     \<lparr>id' = 3, name = js ''C'', description = js ''third'',
      price = literal (1 / 10)\<rparr>"

definition tenths :: "event list" where
  "tenths =
     [MenuResolved [item_C], AddToCart item_C, AddToCart item_C, AddToCart item_C,
      Submit (js ''Ann'') (js ''1 Main St'')]"

definition max_exact :: int where
  "max_exact = 2 ^ 53"

definition receipt :: response where
  "receipt = \<lparr>orderId = js ''ORD-1'', status = js ''RECEIVED'', timestamp = js ''2024-01-01T00:00:00.000Z''\<rparr>"

definition server_rejection :: rejection where
  "server_rejection = \<lparr>message = Some (js ''Server rejected the order due to invalid data.'')\<rparr>"

section \<open>Properties: numbers\<close>

lemma powi_nonneg: "0 \<le> e \<Longrightarrow> (2::rat) powi e = 2 ^ nat e"
  by (simp add: power_int_def)

lemma powi_neg: "e \<le> 0 \<Longrightarrow> (2::rat) powi e = 1 / 2 ^ nat (- e)"
  by (cases "e = 0") (simp_all add: power_int_def inverse_eq_divide power_one_over)

lemma of_int_le_pow2: "c \<le> 2 ^ n \<Longrightarrow> (of_int c :: rat) \<le> 2 ^ n"
proof -
  assume "c \<le> 2 ^ n"
  then have "(of_int c :: rat) \<le> of_int (2 ^ n)" by (simp only: of_int_le_iff)
  then show ?thesis by simp
qed

lemma pow2_le_of_int: "2 ^ n \<le> m \<Longrightarrow> (2::rat) ^ n \<le> of_int m"
proof -
  assume "2 ^ n \<le> m"
  then have "(of_int (2 ^ n) :: rat) \<le> of_int m" by (simp only: of_int_le_iff)
  then show ?thesis by simp
qed

lemma binade_bounds:
  assumes "0 < a"
  shows "2 powi binade a \<le> a" and "a < 2 powi (binade a + 1)"
proof -
  have "2 powi binade a \<le> a \<and> a < 2 powi (binade a + 1)"
  proof (cases "1 \<le> a")
    case True
    define n where "n = \<lfloor>a\<rfloor>"
    have n: "1 \<le> n" "of_int n \<le> a" "a < of_int n + 1"
      using True by (simp_all add: n_def le_floor_iff) linarith
    then have pos: "0 < n" by simp
    from bitlen_bounds [OF pos]
    have b: "2 ^ nat (bitlen n - 1) \<le> n" "n < 2 ^ nat (bitlen n)" by simp_all
    have l: "1 \<le> bitlen n" using pos by (simp add: bitlen_alt_def)
    have e: "binade a = bitlen n - 1" using True by (simp add: binade_def n_def)
    have "(2::rat) powi (bitlen n - 1) = 2 ^ nat (bitlen n - 1)"
      using l by (simp add: powi_nonneg)
    also have "\<dots> \<le> of_int n" using b(1) by (rule pow2_le_of_int)
    finally have lo: "2 powi (bitlen n - 1) \<le> a" using n(2) by simp
    have "n + 1 \<le> 2 ^ nat (bitlen n)" using b(2) by simp
    then have "(of_int (n + 1) :: rat) \<le> 2 ^ nat (bitlen n)" by (rule of_int_le_pow2)
    then have "a < 2 ^ nat (bitlen n)" using n(3) by simp
    also have "\<dots> = 2 powi (bitlen n - 1 + 1)"
      using l by (simp add: powi_nonneg)
    finally show ?thesis using lo e by simp
  next
    case False
    then have a1: "a < 1" by simp
    define c where "c = \<lceil>1 / a\<rceil>"
    define m where "m = c - 1"
    have inv: "1 < 1 / a" using assms a1 by simp
    have c: "1 / a \<le> of_int c" "of_int c - 1 < 1 / a"
      by (simp_all add: c_def) linarith
    from inv c(1) have "(1::rat) < of_int c" by simp
    then have "1 < c" by simp
    then have pos: "0 < m" by (simp add: m_def)
    from bitlen_bounds [OF pos]
    have b: "2 ^ nat (bitlen m - 1) \<le> m" "m < 2 ^ nat (bitlen m)" by simp_all
    have l: "1 \<le> bitlen m" using pos by (simp add: bitlen_alt_def)
    have e: "binade a = - bitlen m" using False by (simp add: binade_def c_def m_def)
    have "c \<le> 2 ^ nat (bitlen m)" using b(2) by (simp add: m_def)
    then have "(of_int c :: rat) \<le> 2 ^ nat (bitlen m)" by (rule of_int_le_pow2)
    with c(1) have "1 / a \<le> 2 ^ nat (bitlen m)" by (rule order_trans)
    then have lo: "1 / 2 ^ nat (bitlen m) \<le> a"
      using assms by (simp add: field_simps)
    have "(2::rat) ^ nat (bitlen m - 1) \<le> of_int m" using b(1) by (rule pow2_le_of_int)
    with c(2) have "2 ^ nat (bitlen m - 1) < 1 / a" by (simp add: m_def)
    then have hi: "a < 1 / 2 ^ nat (bitlen m - 1)"
      using assms by (simp add: field_simps)
    have "(2::rat) powi (- bitlen m) = 1 / 2 ^ nat (bitlen m)"
      using l by (simp add: powi_neg)
    moreover have "(2::rat) powi (- bitlen m + 1) = 1 / 2 ^ nat (bitlen m - 1)"
      using l powi_neg [of "- bitlen m + 1"] by simp
    ultimately show ?thesis using lo hi e by simp
  qed
  then show "2 powi binade a \<le> a" and "a < 2 powi (binade a + 1)" by simp_all
qed

lemma round_half_even_of_int: "round_half_even (of_int k) = k"
  by (simp add: round_half_even_def)

lemma round_half_even_ge: "\<lfloor>y\<rfloor> \<le> round_half_even y"
  by (simp add: round_half_even_def Let_def)

lemma binade_of_int_nonneg:
  assumes "1 \<le> m"
  shows "0 \<le> binade (of_int m)"
proof (rule ccontr)
  assume "\<not> 0 \<le> binade (of_int m)"
  then have "binade (of_int m) + 1 \<le> 0" by simp
  then have "(2::rat) powi (binade (of_int m) + 1) \<le> 2 powi 0"
    by (intro power_int_increasing) simp_all
  moreover have "(of_int m :: rat) < 2 powi (binade (of_int m) + 1)"
    using assms by (intro binade_bounds) simp
  ultimately have "(of_int m :: rat) < 1" by simp
  with assms show False by simp
qed

text \<open>Rounding a positive integer: exact below \<open>2 ^ 53\<close>, a multiple of a power of 2 above.\<close>

lemma round_finite_pos_int:
  assumes "1 \<le> m"
  defines "E \<equiv> binade (of_int m)"
  shows "E \<le> 52 \<Longrightarrow> round_finite (of_int m) = of_int m"
    and "53 \<le> E \<Longrightarrow>
      round_finite (of_int m) =
        of_int (round_half_even (of_int m / 2 ^ nat (E - 52)) * 2 ^ nat (E - 52))"
    and "53 \<le> E \<Longrightarrow> 1 \<le> round_half_even (of_int m / 2 ^ nat (E - 52))"
proof -
  have E0: "0 \<le> E" unfolding E_def using assms(1) by (rule binade_of_int_nonneg)
  have m: "(of_int m :: rat) \<noteq> 0" "\<bar>of_int m :: rat\<bar> = of_int m" "sgn (of_int m :: rat) = 1"
    using assms(1) by simp_all
  have e: "max (E - 52) (- 1074) = E - 52" using E0 by simp
  have r: "round_finite (of_int m) =
      of_int (round_half_even (of_int m / 2 powi (E - 52))) * 2 powi (E - 52)"
    using m e by (simp add: round_finite_def E_def Let_def)
  show "round_finite (of_int m) = of_int m" if "E \<le> 52"
  proof -
    have p: "(2::rat) powi (E - 52) = 1 / 2 ^ nat (52 - E)"
      using that powi_neg [of "E - 52"] by simp
    have "(of_int m :: rat) / 2 powi (E - 52) = of_int (m * 2 ^ nat (52 - E))"
      by (simp add: p)
    then have "round_half_even (of_int m / 2 powi (E - 52)) = m * 2 ^ nat (52 - E)"
      by (simp only: round_half_even_of_int)
    then show ?thesis by (simp add: r p)
  qed
  have p: "(2::rat) powi (E - 52) = 2 ^ nat (E - 52)" if "53 \<le> E"
    using that by (simp add: powi_nonneg)
  show "round_finite (of_int m) =
        of_int (round_half_even (of_int m / 2 ^ nat (E - 52)) * 2 ^ nat (E - 52))" if "53 \<le> E"
    using r p [OF that] by simp
  show "1 \<le> round_half_even (of_int m / 2 ^ nat (E - 52))" if "53 \<le> E"
  proof -
    have "(2::rat) powi (E - 52) \<le> 2 powi E"
      by (intro power_int_increasing) simp_all
    also have "(2::rat) powi E \<le> of_int m"
      unfolding E_def using assms(1) by (intro binade_bounds) simp
    finally have "(2::rat) ^ nat (E - 52) \<le> of_int m"
      unfolding p [OF that] .
    then have "(1::rat) \<le> of_int m / 2 ^ nat (E - 52)"
      by (simp add: le_divide_eq_1_pos)
    then have "1 \<le> \<lfloor>(of_int m :: rat) / 2 ^ nat (E - 52)\<rfloor>"
      by (simp add: le_floor_iff)
    then show ?thesis
      using round_half_even_ge [of "(of_int m :: rat) / 2 ^ nat (E - 52)"] by (rule order_trans)
  qed
qed

lemma binade_le_52:
  assumes "1 \<le> m" "m < 2 ^ 53"
  shows "binade (of_int m) \<le> 52"
proof (rule ccontr)
  assume "\<not> binade (of_int m) \<le> 52"
  then have "53 \<le> binade (of_int m)" by simp
  then have "(2::rat) powi 53 \<le> 2 powi binade (of_int m)"
    by (intro power_int_increasing) simp_all
  moreover have "(2::rat) powi binade (of_int m) \<le> of_int m"
    using assms(1) by (intro binade_bounds) simp
  ultimately have "(2::rat) ^ 53 \<le> of_int m" by (simp add: powi_nonneg)
  then have "(of_int (2 ^ 53) :: rat) \<le> of_int m" by simp
  then have "2 ^ 53 \<le> m" by (simp only: of_int_le_iff)
  with assms(2) show False by simp
qed

lemma round_finite_small_int:
  assumes "\<bar>m\<bar> < 2 ^ 53"
  shows "round_finite (of_int m) = of_int m"
proof -
  have pos: "round_finite (of_int k) = of_int k" if "1 \<le> k" "k < 2 ^ 53" for k
    using that round_finite_pos_int(1) [OF that(1)] binade_le_52 [OF that] by simp
  have neg: "round_finite (- x) = - round_finite x" for x
    by (simp add: round_finite_def Let_def sgn_minus)
  consider "m = 0" | "1 \<le> m" | "m \<le> - 1" by linarith
  then show ?thesis
  proof cases
    case 1
    then show ?thesis by (simp add: round_finite_def)
  next
    case 2
    with assms pos [of m] show ?thesis by simp
  next
    case 3
    with assms pos [of "- m"] neg [of "of_int (- m)"] show ?thesis by simp
  qed
qed

lemma round_finite_minus: "round_finite (- x) = - round_finite x"
  by (simp add: round_finite_def Let_def sgn_minus)

lemma round_finite_max_exact: "round_finite (of_int max_exact) = of_int max_exact"
  unfolding max_exact_def by code_simp

lemma round_finite_exact_int:
  assumes "\<bar>m\<bar> \<le> max_exact"
  shows "round_finite (of_int m) = of_int m"
proof (cases "\<bar>m\<bar> < 2 ^ 53")
  case True
  then show ?thesis by (rule round_finite_small_int)
next
  case False
  with assms have "\<bar>m\<bar> = max_exact" by (simp add: max_exact_def)
  then have "m = max_exact \<or> m = - max_exact" by linarith
  then show ?thesis
    using round_finite_minus [of "of_int max_exact"] by (auto simp: round_finite_max_exact)
qed

lemma js_add_int_exact: "\<bar>a + b\<bar> \<le> max_exact \<Longrightarrow> js_add_int a b = a + b"
  using round_finite_exact_int [of "a + b"] by (simp add: js_add_int_def)

lemma js_add_int_small [simp]:
  "\<bar>numeral a + numeral b :: int\<bar> \<le> 2 ^ 53 \<Longrightarrow>
   js_add_int (numeral a) (numeral b) = numeral a + numeral b"
  "\<bar>numeral a + 1 :: int\<bar> \<le> 2 ^ 53 \<Longrightarrow> js_add_int (numeral a) 1 = numeral a + 1"
  "js_add_int 1 1 = 2"
  using js_add_int_exact [of "numeral a" "numeral b"] js_add_int_exact [of "numeral a" 1]
    js_add_int_exact [of 1 1]
  by (simp_all add: max_exact_def)

text \<open>The rounded sum of two integers is an integer, and at least 1 when the sum is.\<close>

lemma round_finite_int_cases:
  "\<exists>k. round_finite (of_int m) = of_int k \<and> (1 \<le> m \<longrightarrow> 1 \<le> k)"
proof -
  have pos: "\<exists>k. round_finite (of_int n) = of_int k \<and> 1 \<le> k" if "1 \<le> n" for n
  proof (cases "binade (of_int n) \<le> 52")
    case True
    with round_finite_pos_int(1) [OF that] that show ?thesis by blast
  next
    case False
    then have E: "53 \<le> binade (of_int n)" by simp
    let ?r = "round_half_even (of_int n / 2 ^ nat (binade (of_int n) - 52))"
    have "1 \<le> ?r" using round_finite_pos_int(3) [OF that E] .
    moreover have "(1::int) \<le> 2 ^ nat (binade (of_int n) - 52)" by simp
    ultimately have "1 * 1 \<le> ?r * 2 ^ nat (binade (of_int n) - 52)"
      by (intro mult_mono) simp_all
    with round_finite_pos_int(2) [OF that E] show ?thesis
      by (intro exI [of _ "?r * 2 ^ nat (binade (of_int n) - 52)"]) simp
  qed
  consider "m = 0" | "1 \<le> m" | "m \<le> - 1" by linarith
  then show ?thesis
  proof cases
    case 1
    then show ?thesis by (auto simp: round_finite_def intro: exI [of _ 0])
  next
    case 2
    with pos [of m] show ?thesis by simp
  next
    case 3
    then have "1 \<le> - m" by simp
    from pos [OF this] obtain k where "round_finite (of_int (- m)) = of_int k" by blast
    then have "round_finite (of_int m) = of_int (- k)"
      using round_finite_minus [of "of_int m"] by simp
    with 3 show ?thesis by (intro exI [of _ "- k"]) simp
  qed
qed

lemma js_add_int_value: "of_int (js_add_int a b) = round_finite (of_int a + of_int b)"
proof -
  obtain k where "round_finite (of_int (a + b)) = of_int k"
    using round_finite_int_cases [of "a + b"] by blast
  then show ?thesis by (simp add: js_add_int_def)
qed

lemma js_add_int_positive: "1 \<le> a + b \<Longrightarrow> 1 \<le> js_add_int a b"
proof -
  assume "1 \<le> a + b"
  then obtain k where "round_finite (of_int (a + b)) = of_int k" "1 \<le> k"
    using round_finite_int_cases [of "a + b"] by blast
  then show ?thesis by (simp add: js_add_int_def)
qed

lemma is_double_int: "\<bar>m\<bar> \<le> max_exact \<Longrightarrow> is_double (of_int m)"
proof -
  assume a: "\<bar>m\<bar> \<le> max_exact"
  then have "\<bar>m\<bar> < 2 ^ 1024" by (simp add: max_exact_def)
  then have "\<bar>of_int m :: rat\<bar> < of_int (2 ^ 1024)"
    by (simp only: of_int_abs [symmetric] of_int_less_iff)
  with a show ?thesis by (simp add: is_double_def round_finite_exact_int)
qed

lemma to_number_double: "is_double x \<Longrightarrow> to_number x = Finite x"
  by (auto simp: is_double_def to_number_def Let_def)

lemma is_double_numeral [simp]:
  "(numeral k :: int) \<le> 2 ^ 53 \<Longrightarrow> is_double (numeral k)"
  "is_double 0" "is_double 1"
  using is_double_int [of "numeral k"] is_double_int [of 0] is_double_int [of 1]
  by (simp_all add: max_exact_def)

lemma to_number_numeral [simp]:
  "(numeral k :: int) \<le> 2 ^ 53 \<Longrightarrow> to_number (numeral k) = Finite (numeral k)"
  "to_number 0 = Finite 0" "to_number 1 = Finite 1"
  by (simp_all add: to_number_double)

lemma literal_tenth: "literal (1 / 10) = Finite (3602879701896397 / 36028797018963968)"
proof -
  have "round_finite (1 / 10) = 3602879701896397 / 36028797018963968"
    by code_simp
  then show ?thesis by (simp add: literal_def to_number_def)
qed

text \<open>Three times the double nearest to 0.1 lies halfway between two doubles.\<close>

lemma three_tenths:
  "to_number (10808639105689191 / 36028797018963968) =
     Finite (5404319552844596 / 18014398509481984)"
  "to_number (1351079888211149 / 4503599627370496) =
     Finite (1351079888211149 / 4503599627370496)"
proof -
  have "round_finite (10808639105689191 / 36028797018963968) =
      5404319552844596 / 18014398509481984"
    by code_simp
  then show "to_number (10808639105689191 / 36028797018963968) =
     Finite (5404319552844596 / 18014398509481984)"
    by (simp add: to_number_def)
  have "round_finite (1351079888211149 / 4503599627370496) =
      1351079888211149 / 4503599627370496"
    by code_simp
  then show "to_number (1351079888211149 / 4503599627370496) =
     Finite (1351079888211149 / 4503599627370496)"
    by (simp add: to_number_def)
qed

section \<open>Properties: strings and the cart operations\<close>

lemma trim_empty_iff: "trim s = [] \<longleftrightarrow> (\<forall>c\<in>set s. trimmable c)"
proof -
  have "trim s = [] \<longleftrightarrow> (\<forall>c\<in>set (dropWhile trimmable s). trimmable c)"
    by (simp add: trim_def dropWhile_eq_Nil_conv)
  also have "\<dots> \<longleftrightarrow> dropWhile trimmable s = []"
  proof
    assume a: "\<forall>c\<in>set (dropWhile trimmable s). trimmable c"
    show "dropWhile trimmable s = []"
    proof (rule ccontr)
      assume n: "dropWhile trimmable s \<noteq> []"
      then have "\<not> trimmable (hd (dropWhile trimmable s))" by (rule hd_dropWhile)
      with a n show False by simp
    qed
  qed (auto dest: set_dropWhileD)
  also have "\<dots> \<longleftrightarrow> (\<forall>c\<in>set s. trimmable c)"
    by (simp add: dropWhile_eq_Nil_conv)
  finally show ?thesis .
qed

lemma map_if_update:
  assumes "distinct (map f xs)" "k < length xs" "f (xs ! k) = i"
  shows "map (\<lambda>x. if f x = i then g x else x) xs = xs[k := g (xs ! k)]"
proof (rule nth_equalityI)
  show "length (map (\<lambda>x. if f x = i then g x else x) xs) = length (xs[k := g (xs ! k)])" by simp
next
  fix j assume "j < length (map (\<lambda>x. if f x = i then g x else x) xs)"
  then have j: "j < length xs" by simp
  show "map (\<lambda>x. if f x = i then g x else x) xs ! j = xs[k := g (xs ! k)] ! j"
  proof (cases "j = k")
    case True with assms j show ?thesis by simp
  next
    case False
    with assms j have "map f xs ! j \<noteq> map f xs ! k"
      by (simp add: nth_eq_iff_index_eq del: nth_map)
    with assms j False show ?thesis by simp
  qed
qed

lemma find_item_None: "find_item i c = None \<longleftrightarrow> i \<notin> id' ` set c"
  by (auto simp: find_item_def find_None_iff)

lemma addToCart_absent: "id' p \<notin> id' ` set c \<Longrightarrow> addToCart p c = c @ [with_quantity p 1]"
  using find_item_None[of "id' p" c] by (simp add: addToCart_def)

lemma addToCart_present:
  "id' p \<in> id' ` set c \<Longrightarrow>
   addToCart p c =
     map (\<lambda>item. if id' item = id' p then item\<lparr>quantity := js_add_int (quantity item) 1\<rparr> else item) c"
  using find_item_None[of "id' p" c] by (cases "find_item (id' p) c") (simp_all add: addToCart_def)

lemma with_quantity_simps [simp]:
  "id' (with_quantity p q) = id' p" "name (with_quantity p q) = name p"
  "description (with_quantity p q) = description p" "price (with_quantity p q) = price p"
  "quantity (with_quantity p q) = q"
  by (simp_all add: with_quantity_def pizza.defs cart_item.defs)

lemma with_quantity_update: "(with_quantity p q)\<lparr>quantity := r\<rparr> = with_quantity p r"
  by (simp add: with_quantity_def pizza.defs cart_item.defs)

text \<open>
  Claim C4, as stated, fails: a line's quantity is a JavaScript number, and at
  \<open>2 ^ 53\<close> the sum \<open>quantity + 1\<close> is rounded back to \<open>2 ^ 53\<close>. Adding the item again
  leaves the quantity as it is; it is not incremented.
\<close>

theorem add_item_counterexample:
  "cart (apply_ops initial [AddToCart item_A, UpdateQuantity 1 (2 ^ 53)]) =
     [with_quantity item_A (2 ^ 53)] \<and>
   cart (handleAddToCart item_A (apply_ops initial [AddToCart item_A, UpdateQuantity 1 (2 ^ 53)])) =
     [with_quantity item_A (2 ^ 53)] \<and>
   cart (handleAddToCart item_A (apply_ops initial [AddToCart item_A, UpdateQuantity 1 (2 ^ 53)])) \<noteq>
     [with_quantity item_A (2 ^ 53 + 1)]"
proof -
  let ?s = "apply_ops initial [AddToCart item_A, UpdateQuantity 1 (2 ^ 53)]"
  have i: "id' item_A = 1" by (simp add: item_A_def)
  have c: "cart ?s = [with_quantity item_A 9007199254740992]"
    by (simp add: apply_ops_def handleAddToCart_def addToCart_def find_item_def initial_def i
        handleUpdateQuantity_def setQuantity_def with_quantity_update)
  have r: "js_add_int 9007199254740992 1 = 9007199254740992" by code_simp
  have "cart (handleAddToCart item_A ?s) = addToCart item_A (cart ?s)"
    by (simp add: handleAddToCart_def)
  also have "\<dots> = addToCart item_A [with_quantity item_A 9007199254740992]"
    by (simp only: c)
  also have "\<dots> = [with_quantity item_A 9007199254740992]"
    by (simp add: addToCart_def find_item_def r with_quantity_update)
  finally have a: "cart (handleAddToCart item_A ?s) = [with_quantity item_A 9007199254740992]" .
  have n: "with_quantity item_A 9007199254740992 \<noteq> with_quantity item_A 9007199254740993"
    by (simp add: with_quantity_def pizza.defs cart_item.defs)
  from c a n show ?thesis by simp
qed

text \<open>
  Claim C4, amended. \<open>handleAddToCart\<close> (AddItem) is a total function of the session.
  When the cart's ids are distinct, line \<open>k\<close> has the item's id and its quantity is from
  \<open>- (2 ^ 53)\<close> up to but not including \<open>2 ^ 53\<close>, exactly that line changes: its quantity
  goes up by 1. Whatever the ids and the quantities, the lines with the item's id get
  the rounded sum of their quantity and 1, and the others stay as they are. When no line
  has the item's id, a line holding the item with quantity 1 is put at the end (and a
  second call makes it one line of quantity 2). In all cases \<open>submissionError\<close> is cleared
  and no other part of the session changes.
\<close>

theorem handleAddToCart_spec:
  "(distinct (map id' (cart s)) \<and> k < length (cart s) \<and> id' (cart s ! k) = id' p \<and>
      - (2 ^ 53) \<le> quantity (cart s ! k) \<and> quantity (cart s ! k) < 2 ^ 53 \<longrightarrow>
      cart (handleAddToCart p s) = (cart s)[k := (cart s ! k)\<lparr>quantity := quantity (cart s ! k) + 1\<rparr>])
   \<and> (id' p \<in> id' ` set (cart s) \<longrightarrow>
        length (cart (handleAddToCart p s)) = length (cart s) \<and>
        (\<forall>j < length (cart s).
           cart (handleAddToCart p s) ! j =
             (if id' (cart s ! j) = id' p
              then (cart s ! j)\<lparr>quantity := js_add_int (quantity (cart s ! j)) 1\<rparr>
              else cart s ! j)))
   \<and> (\<forall>q. of_int (js_add_int q 1) = round_finite (of_int q + 1) \<and>
          (- (2 ^ 53) \<le> q \<and> q < 2 ^ 53 \<longrightarrow> js_add_int q 1 = q + 1))
   \<and> (id' p \<notin> id' ` set (cart s) \<longrightarrow>
        cart (handleAddToCart p s) = cart s @ [with_quantity p 1] \<and>
        cart (handleAddToCart p (handleAddToCart p s)) = cart s @ [with_quantity p 2])
   \<and> submissionError (handleAddToCart p s) = None
   \<and> handleAddToCart p s = s\<lparr>cart := cart (handleAddToCart p s), submissionError := None\<rparr>"
proof (intro conjI impI allI)
  assume a: "distinct (map id' (cart s)) \<and> k < length (cart s) \<and> id' (cart s ! k) = id' p \<and>
      - (2 ^ 53) \<le> quantity (cart s ! k) \<and> quantity (cart s ! k) < 2 ^ 53"
  then have "id' p \<in> id' ` set (cart s)" by (metis imageI nth_mem)
  moreover from a have "js_add_int (quantity (cart s ! k)) 1 = quantity (cart s ! k) + 1"
    by (intro js_add_int_exact) (simp add: max_exact_def abs_le_iff)
  ultimately show "cart (handleAddToCart p s) =
      (cart s)[k := (cart s ! k)\<lparr>quantity := quantity (cart s ! k) + 1\<rparr>]"
    using a map_if_update [of id' "cart s" k "id' p"
        "\<lambda>item. item\<lparr>quantity := js_add_int (quantity item) 1\<rparr>"]
    by (simp add: handleAddToCart_def addToCart_present)
next
  assume "id' p \<in> id' ` set (cart s)"
  then show "length (cart (handleAddToCart p s)) = length (cart s)"
    by (simp add: handleAddToCart_def addToCart_present)
next
  fix j
  assume "id' p \<in> id' ` set (cart s)" and "j < length (cart s)"
  then show "cart (handleAddToCart p s) ! j =
             (if id' (cart s ! j) = id' p
              then (cart s ! j)\<lparr>quantity := js_add_int (quantity (cart s ! j)) 1\<rparr>
              else cart s ! j)"
    by (simp add: handleAddToCart_def addToCart_present)
next
  fix q :: int
  show "of_int (js_add_int q 1) = round_finite (of_int q + 1)"
    using js_add_int_value [of q 1] by simp
next
  fix q :: int
  assume "- (2 ^ 53) \<le> q \<and> q < 2 ^ 53"
  then show "js_add_int q 1 = q + 1"
    by (intro js_add_int_exact) (simp add: max_exact_def abs_le_iff)
next
  assume a: "id' p \<notin> id' ` set (cart s)"
  then show "cart (handleAddToCart p s) = cart s @ [with_quantity p 1]"
    by (simp add: handleAddToCart_def addToCart_absent)
  show "cart (handleAddToCart p (handleAddToCart p s)) = cart s @ [with_quantity p 2]"
  proof -
    have "map (\<lambda>item. if id' item = id' p then item\<lparr>quantity := js_add_int (quantity item) 1\<rparr>
        else item) (cart s) = cart s"
      using a by (intro map_idI) (metis imageI)
    then show ?thesis
      using a by (simp add: handleAddToCart_def addToCart_absent addToCart_present with_quantity_update)
  qed
next
  show "submissionError (handleAddToCart p s) = None" by (simp add: handleAddToCart_def)
  show "handleAddToCart p s = s\<lparr>cart := cart (handleAddToCart p s), submissionError := None\<rparr>"
    by (simp add: handleAddToCart_def)
qed

theorem handleAddToCart_spec_witness:
  "distinct (map id' (cart (apply_ops initial [AddToCart item_A, AddToCart item_B]))) \<and>
   (1::nat) < length (cart (apply_ops initial [AddToCart item_A, AddToCart item_B])) \<and>
   id' (cart (apply_ops initial [AddToCart item_A, AddToCart item_B]) ! 1) = id' item_B \<and>
   - (2 ^ 53) \<le> quantity (cart (apply_ops initial [AddToCart item_A, AddToCart item_B]) ! 1) \<and>
   quantity (cart (apply_ops initial [AddToCart item_A, AddToCart item_B]) ! 1) < 2 ^ 53 \<and>
   cart (handleAddToCart item_B (apply_ops initial [AddToCart item_A, AddToCart item_B])) =
     [with_quantity item_A 1, with_quantity item_B 2] \<and>
   id' item_A \<notin> id' ` set (cart initial) \<and>
   cart (handleAddToCart item_A initial) = [with_quantity item_A 1] \<and>
   cart (handleAddToCart item_A (handleAddToCart item_A initial)) = [with_quantity item_A 2]"
proof -
  have c: "cart (apply_ops initial [AddToCart item_A, AddToCart item_B]) =
      [with_quantity item_A 1, with_quantity item_B 1]"
    by (simp add: apply_ops_def handleAddToCart_def addToCart_def find_item_def initial_def
        item_A_def item_B_def)
  show ?thesis
    using handleAddToCart_spec [where s = "apply_ops initial [AddToCart item_A, AddToCart item_B]"
          and k = 1 and p = item_B]
      handleAddToCart_spec [where s = initial and k = 0 and p = item_A]
    by (simp add: c with_quantity_update) (simp add: initial_def item_A_def item_B_def)
qed

lemma removeItem_absent: "i \<notin> id' ` set c \<Longrightarrow> removeItem i c = c"
  unfolding removeItem_def by (rule filter_True) (metis imageI)

lemma setQuantity_absent: "i \<notin> id' ` set c \<Longrightarrow> setQuantity i n c = c"
  unfolding setQuantity_def by (rule map_idI) (metis imageI)

text \<open>
  Claim C5. \<open>handleUpdateQuantity\<close> (SetQuantity) with a new quantity of zero or less is
  \<open>handleRemoveItem\<close> on the whole session. With a positive new quantity \<open>n\<close>, distinct
  ids in the cart and line \<open>k\<close> holding the id, line \<open>k\<close> gets quantity \<open>n\<close>, however
  large, and nothing else changes (whatever the ids, the lines with the id get quantity
  \<open>n\<close> and the others stay as they are). When no line holds the id, the session stays as
  it is.
\<close>

theorem handleUpdateQuantity_spec:
  "(n \<le> 0 \<longrightarrow> handleUpdateQuantity i n s = handleRemoveItem i s)
   \<and> (0 < n \<and> distinct (map id' (cart s)) \<and> k < length (cart s) \<and> id' (cart s ! k) = i \<longrightarrow>
        handleUpdateQuantity i n s = s\<lparr>cart := (cart s)[k := (cart s ! k)\<lparr>quantity := n\<rparr>]\<rparr>)
   \<and> (0 < n \<longrightarrow>
        length (cart (handleUpdateQuantity i n s)) = length (cart s) \<and>
        (\<forall>j < length (cart s).
           cart (handleUpdateQuantity i n s) ! j =
             (if id' (cart s ! j) = i then (cart s ! j)\<lparr>quantity := n\<rparr> else cart s ! j)))
   \<and> (i \<notin> id' ` set (cart s) \<longrightarrow> handleUpdateQuantity i n s = s)"
proof (intro conjI impI)
  assume "n \<le> 0"
  then show "handleUpdateQuantity i n s = handleRemoveItem i s"
    by (simp add: handleUpdateQuantity_def)
next
  assume a: "0 < n \<and> distinct (map id' (cart s)) \<and> k < length (cart s) \<and> id' (cart s ! k) = i"
  then show "handleUpdateQuantity i n s = s\<lparr>cart := (cart s)[k := (cart s ! k)\<lparr>quantity := n\<rparr>]\<rparr>"
    using map_if_update [of id' "cart s" k i "\<lambda>item. item\<lparr>quantity := n\<rparr>"]
    by (simp add: handleUpdateQuantity_def setQuantity_def)
next
  assume "0 < n"
  then show "length (cart (handleUpdateQuantity i n s)) = length (cart s)"
    and "\<forall>j < length (cart s).
           cart (handleUpdateQuantity i n s) ! j =
             (if id' (cart s ! j) = i then (cart s ! j)\<lparr>quantity := n\<rparr> else cart s ! j)"
    by (simp_all add: handleUpdateQuantity_def setQuantity_def)
next
  assume "i \<notin> id' ` set (cart s)"
  then show "handleUpdateQuantity i n s = s"
    by (simp add: handleUpdateQuantity_def handleRemoveItem_def removeItem_absent setQuantity_absent)
qed

theorem handleUpdateQuantity_spec_witness:
  "(-3::int) \<le> 0 \<and>
   cart (handleUpdateQuantity 1 (-3) (apply_ops initial [AddToCart item_A, AddToCart item_B])) =
     [with_quantity item_B 1] \<and>
   cart (handleRemoveItem 1 (apply_ops initial [AddToCart item_A, AddToCart item_B])) =
     [with_quantity item_B 1] \<and>
   (0::int) < 1000000 \<and>
   distinct (map id' (cart (apply_ops initial [AddToCart item_A, AddToCart item_B]))) \<and>
   (1::nat) < length (cart (apply_ops initial [AddToCart item_A, AddToCart item_B])) \<and>
   id' (cart (apply_ops initial [AddToCart item_A, AddToCart item_B]) ! 1) = 2 \<and>
   cart (handleUpdateQuantity 2 1000000 (apply_ops initial [AddToCart item_A, AddToCart item_B])) =
     [with_quantity item_A 1, with_quantity item_B 1000000] \<and>
   7 \<notin> id' ` set (cart (apply_ops initial [AddToCart item_A, AddToCart item_B])) \<and>
   handleUpdateQuantity 7 5 (apply_ops initial [AddToCart item_A, AddToCart item_B]) =
     apply_ops initial [AddToCart item_A, AddToCart item_B]"
proof -
  let ?s = "apply_ops initial [AddToCart item_A, AddToCart item_B]"
  have c: "cart ?s = [with_quantity item_A 1, with_quantity item_B 1]"
    by (simp add: apply_ops_def handleAddToCart_def addToCart_def find_item_def initial_def
        item_A_def item_B_def)
  have i: "id' item_A = 1" "id' item_B = 2"
    by (simp_all add: item_A_def item_B_def)
  have r: "cart (handleRemoveItem 1 ?s) = [with_quantity item_B 1]"
    by (simp add: handleRemoveItem_def removeItem_def c i)
  show ?thesis
    using handleUpdateQuantity_spec [where n = "-3" and i = 1 and s = ?s and k = 0]
      handleUpdateQuantity_spec [where n = 1000000 and i = 2 and s = ?s and k = 1]
      handleUpdateQuantity_spec [where n = 5 and i = 7 and s = ?s and k = 0]
    by (simp add: c i r with_quantity_update)
qed

lemma map_id_removeItem: "map id' (removeItem i c) = removeAll i (map id' c)"
  by (induction c) (auto simp: removeItem_def)

lemma map_id_setQuantity: "map id' (setQuantity i n c) = map id' c"
  by (induction c) (auto simp: setQuantity_def)

lemma map_id_addToCart:
  "map id' (addToCart p c) = (if id' p \<in> set (map id' c) then map id' c else map id' c @ [id' p])"
proof (cases "id' p \<in> id' ` set c")
  case True
  then show ?thesis by (simp add: addToCart_present comp_def)
next
  case False
  then show ?thesis by (simp add: addToCart_absent)
qed

lemma positive_addToCart:
  "list_all (\<lambda>item. 1 \<le> quantity item) c \<Longrightarrow> list_all (\<lambda>item. 1 \<le> quantity item) (addToCart p c)"
proof (cases "id' p \<in> id' ` set c")
  case True
  assume "list_all (\<lambda>item. 1 \<le> quantity item) c"
  then have "1 \<le> js_add_int (quantity item) 1" if "item \<in> set c" for item
    using that by (intro js_add_int_positive) (force simp: list_all_iff)
  then show ?thesis
    using True \<open>list_all (\<lambda>item. 1 \<le> quantity item) c\<close>
    by (auto simp: addToCart_present list_all_iff)
next
  case False
  assume "list_all (\<lambda>item. 1 \<le> quantity item) c"
  with False show ?thesis by (simp add: addToCart_absent)
qed

lemma positive_removeItem:
  "list_all (\<lambda>item. 1 \<le> quantity item) c \<Longrightarrow> list_all (\<lambda>item. 1 \<le> quantity item) (removeItem i c)"
  by (auto simp: removeItem_def list_all_iff)

lemma positive_setQuantity:
  "list_all (\<lambda>item. 1 \<le> quantity item) c \<Longrightarrow> 0 < n \<Longrightarrow>
   list_all (\<lambda>item. 1 \<le> quantity item) (setQuantity i n c)"
  by (auto simp: setQuantity_def list_all_iff)

lemma handle_cart_op:
  assumes "is_cart_op e" "cart_ok (cart s)"
  shows "cart_ok (cart (handle e s)) \<and> map id' (cart (handle e s)) = first_add_step (map id' (cart s)) e"
  using assms
  by (cases e)
     (auto simp: cart_ok_def handleAddToCart_def handleUpdateQuantity_def handleRemoveItem_def
        map_id_addToCart map_id_removeItem map_id_setQuantity distinct_removeAll
        positive_addToCart positive_removeItem positive_setQuantity)

lemma apply_ops_snoc: "apply_ops s (es @ [e]) = handle e (apply_ops s es)"
  by (simp add: apply_ops_def)

lemma first_add_order_snoc: "first_add_order (es @ [e]) = first_add_step (first_add_order es) e"
  by (simp add: first_add_order_def)

lemma apply_ops_ok:
  assumes "list_all is_cart_op es" "cart s = []"
  shows "cart_ok (cart (apply_ops s es)) \<and> map id' (cart (apply_ops s es)) = first_add_order es"
  using assms(1)
proof (induction es rule: rev_induct)
  case Nil
  show ?case using assms(2) by (simp add: apply_ops_def first_add_order_def cart_ok_def)
next
  case (snoc e es)
  then have "is_cart_op e" and ih: "cart_ok (cart (apply_ops s es))"
      "map id' (cart (apply_ops s es)) = first_add_order es"
    by simp_all
  then show ?case
    using handle_cart_op [of e "apply_ops s es"]
    by (simp add: apply_ops_snoc first_add_order_snoc)
qed

lemma first_add_order_adds:
  "first_add_order (map AddToCart ps) = rev (remdups (rev (map id' ps)))"
proof (induction ps rule: rev_induct)
  case Nil
  show ?case by (simp add: first_add_order_def)
next
  case (snoc p ps)
  have "set (rev (remdups (rev (map id' ps)))) = id' ` set ps" by simp
  with snoc show ?case
    by (simp add: first_add_order_snoc)
qed

text \<open>
  Claim C7. After any list of AddItem, SetQuantity and RemoveItem operations run from a
  session with an empty cart, the ids of the cart's lines are distinct, every quantity
  is at least 1, and the lines stand in the order the specification describes
  (\<open>first_add_order\<close>). For a list of AddItem operations alone that order is the order of
  the first occurrences of the ids added, so the cart has one line per distinct id.
\<close>

theorem cart_invariant:
  assumes "list_all is_cart_op es" and "cart s = []"
  shows "distinct (map id' (cart (apply_ops s es)))
    \<and> list_all (\<lambda>item. 1 \<le> quantity item) (cart (apply_ops s es))
    \<and> map id' (cart (apply_ops s es)) = first_add_order es
    \<and> (\<forall>ps. es = map AddToCart ps \<longrightarrow>
          map id' (cart (apply_ops s es)) = rev (remdups (rev (map id' ps))) \<and>
          length (cart (apply_ops s es)) = card (id' ` set ps))"
proof -
  have ok: "cart_ok (cart (apply_ops s es))"
    and order: "map id' (cart (apply_ops s es)) = first_add_order es"
    using apply_ops_ok [OF assms] by simp_all
  have "length (cart (apply_ops s es)) = card (id' ` set ps)" if "es = map AddToCart ps" for ps
  proof -
    have "length (map id' (cart (apply_ops s es))) = length (remdups (rev (map id' ps)))"
      using order that by (simp add: first_add_order_adds)
    then show ?thesis by (simp add: length_remdups_card_conv)
  qed
  with ok order show ?thesis
    by (auto simp: cart_ok_def first_add_order_adds)
qed

theorem cart_invariant_witness:
  "list_all is_cart_op [AddToCart item_B, AddToCart item_A, AddToCart item_B, UpdateQuantity 1 0,
       AddToCart item_A, UpdateQuantity 2 7] \<and>
   cart initial = [] \<and>
   cart (apply_ops initial [AddToCart item_B, AddToCart item_A, AddToCart item_B, UpdateQuantity 1 0,
       AddToCart item_A, UpdateQuantity 2 7]) = [with_quantity item_B 7, with_quantity item_A 1] \<and>
   first_add_order [AddToCart item_B, AddToCart item_A, AddToCart item_B, UpdateQuantity 1 0,
       AddToCart item_A, UpdateQuantity 2 7] = [2, 1] \<and>
   distinct (map id' (cart (apply_ops initial [AddToCart item_B, AddToCart item_A, AddToCart item_B,
       UpdateQuantity 1 0, AddToCart item_A, UpdateQuantity 2 7])))"
proof -
  let ?es = "[AddToCart item_B, AddToCart item_A, AddToCart item_B, UpdateQuantity 1 0,
       AddToCart item_A, UpdateQuantity 2 7]"
  have h1: "list_all is_cart_op ?es" by simp
  have h2: "cart initial = []" by (simp add: initial_def)
  have i: "id' item_A = 1" "id' item_B = 2"
    by (simp_all add: item_A_def item_B_def)
  have c: "cart (apply_ops initial ?es) = [with_quantity item_B 7, with_quantity item_A 1]"
    by (simp add: apply_ops_def handleAddToCart_def addToCart_def find_item_def h2 i
        handleUpdateQuantity_def handleRemoveItem_def removeItem_def setQuantity_def
        with_quantity_update)
  have f: "first_add_order ?es = [2, 1]"
    by (simp add: first_add_order_def i)
  from cart_invariant [OF h1 h2] h1 h2 c f show ?thesis by simp
qed

section \<open>Properties: submission and reachable sessions\<close>

lemma cart_total_snoc:
  "cart_total (c @ [item]) =
     js_add (cart_total c) (js_mul (price item) (Finite (of_int (quantity item))))"
  by (simp add: cart_total_def)

lemma unrounded_total:
  "unrounded acc c \<Longrightarrow>
   foldl (\<lambda>sum item. js_add sum (js_mul (price item) (Finite (of_int (quantity item)))))
     (Finite acc) c =
   Finite (acc + (\<Sum>item\<leftarrow>c. finite_value (price item) * of_int (quantity item)))"
proof (induction c arbitrary: acc)
  case Nil
  show ?case by simp
next
  case (Cons item c)
  then obtain a where a: "price item = Finite a"
    by (cases "price item") simp_all
  with Cons.prems have d: "is_double (a * of_int (quantity item))"
    "is_double (acc + a * of_int (quantity item))"
    "unrounded (acc + a * of_int (quantity item)) c"
    by simp_all
  from Cons.IH [OF d(3)] a d(1,2) show ?case
    by (simp add: to_number_double add.assoc)
qed

lemma other_events_make_no_call:
  "(\<forall>nm addr. e \<noteq> Submit nm addr) \<Longrightarrow> submitCalls (step s e) = submitCalls s"
  by (cases e)
    (simp_all add: step_def handleAddToCart_def handleUpdateQuantity_def handleRemoveItem_def
      loadMenu_resolved_def loadMenu_rejected_def submit_resolved_def submit_rejected_def
      split: list.splits nat.splits)

lemma canSubmit_iff:
  "canSubmit c b nm addr \<longleftrightarrow>
     c \<noteq> [] \<and> \<not> list_all trimmable nm \<and> \<not> list_all trimmable addr \<and> \<not> b"
  by (auto simp: canSubmit_def trim_empty_iff list_all_iff)

text \<open>
  Claim C1. Submitting the form (\<open>handleSubmit\<close> of OrderForm, which calls
  \<open>handleOrderSubmit\<close>) leaves the whole session as it is, with no call of \<open>submitOrder\<close>,
  when the cart is empty, or the name or the address consists of characters that \<open>trim\<close>
  removes (the empty string included), or a submission is in flight. In every other case
  it proceeds: \<open>isSubmitting\<close> is set, one call of \<open>submitOrder\<close> is added, and one run is
  suspended with the form's data.
\<close>

theorem submit_guard:
  "(cart s = [] \<or> list_all trimmable nm \<or> list_all trimmable addr \<or> isSubmitting s \<longrightarrow>
      handleSubmit nm addr s = s)
   \<and> (\<not> (cart s = [] \<or> list_all trimmable nm \<or> list_all trimmable addr \<or> isSubmitting s) \<longrightarrow>
        isSubmitting (handleSubmit nm addr s) \<and>
        length (submitCalls (handleSubmit nm addr s)) = length (submitCalls s) + 1 \<and>
        awaiting (handleSubmit nm addr s) =
          awaiting s @ [\<lparr>form_name = nm, form_address = addr, form_total = cart_total (cart s)\<rparr>])"
proof (intro conjI impI)
  assume "cart s = [] \<or> list_all trimmable nm \<or> list_all trimmable addr \<or> isSubmitting s"
  then have "\<not> canSubmit (cart s) (isSubmitting s) nm addr"
    by (auto simp: canSubmit_iff)
  then show "handleSubmit nm addr s = s"
    by (simp add: handleSubmit_def)
next
  let ?d = "\<lparr>form_name = nm, form_address = addr, form_total = cart_total (cart s)\<rparr>"
  assume a: "\<not> (cart s = [] \<or> list_all trimmable nm \<or> list_all trimmable addr \<or> isSubmitting s)"
  then have "canSubmit (cart s) (isSubmitting s) nm addr"
    by (simp add: canSubmit_iff)
  then have "handleSubmit nm addr s = handleOrderSubmit ?d s"
    by (simp add: handleSubmit_def)
  moreover from a have "length (cart s) \<noteq> 0" "\<not> isSubmitting s"
    by simp_all
  ultimately show "isSubmitting (handleSubmit nm addr s)"
    and "length (submitCalls (handleSubmit nm addr s)) = length (submitCalls s) + 1"
    and "awaiting (handleSubmit nm addr s) = awaiting s @ [?d]"
    by (simp_all add: handleOrderSubmit_def)
qed

text \<open>
  Claim C6, amended. An accepted submission adds exactly one call of \<open>submitOrder\<close>, and
  no event other than a submission ever adds one. The payload holds the name and the
  address as typed, one entry with id and quantity for each line of the current cart in
  the cart's order, and as total the value of the form's \<open>reduce\<close> over the current
  cart: starting from 0, line after line, the sum so far plus the product of price and
  quantity, each product and each sum rounded to a double. When no product and no
  partial sum needs rounding, that total is the exact sum of price times quantity over
  the cart's lines.
\<close>

theorem submit_payload:
  assumes "cart s \<noteq> []" "\<not> list_all trimmable nm" "\<not> list_all trimmable addr" "\<not> isSubmitting s"
  shows "submitCalls (handleSubmit nm addr s) =
     submitCalls s @
       [\<lparr>customerName = nm, address = addr,
         items = map (\<lambda>item. \<lparr>pizzaId = id' item, line_quantity = quantity item\<rparr>) (cart s),
         total = cart_total (cart s)\<rparr>]
    \<and> (\<forall>e s'. (\<forall>nm' addr'. e \<noteq> Submit nm' addr') \<longrightarrow> submitCalls (step s' e) = submitCalls s')
    \<and> cart_total [] = Finite 0
    \<and> (\<forall>c item. cart_total (c @ [item]) =
          js_add (cart_total c) (js_mul (price item) (Finite (of_int (quantity item)))))
    \<and> (unrounded 0 (cart s) \<longrightarrow>
          cart_total (cart s) =
            Finite (\<Sum>item\<leftarrow>cart s. finite_value (price item) * of_int (quantity item)))"
proof (intro conjI allI impI)
  let ?d = "\<lparr>form_name = nm, form_address = addr, form_total = cart_total (cart s)\<rparr>"
  from assms have "canSubmit (cart s) (isSubmitting s) nm addr"
    by (simp add: canSubmit_iff)
  then have "handleSubmit nm addr s = handleOrderSubmit ?d s"
    by (simp add: handleSubmit_def)
  with assms(1,4) have "submitCalls (handleSubmit nm addr s) = submitCalls s @ [orderPayload ?d (cart s)]"
    by (simp add: handleOrderSubmit_def)
  then show "submitCalls (handleSubmit nm addr s) =
     submitCalls s @
       [\<lparr>customerName = nm, address = addr,
         items = map (\<lambda>item. \<lparr>pizzaId = id' item, line_quantity = quantity item\<rparr>) (cart s),
         total = cart_total (cart s)\<rparr>]"
    by (simp add: orderPayload_def)
next
  fix e s'
  assume "\<forall>nm' addr'. e \<noteq> Submit nm' addr'"
  then show "submitCalls (step s' e) = submitCalls s'"
    by (rule other_events_make_no_call)
next
  show "cart_total [] = Finite 0" by (simp add: cart_total_def)
next
  fix c item
  show "cart_total (c @ [item]) =
      js_add (cart_total c) (js_mul (price item) (Finite (of_int (quantity item))))"
    by (rule cart_total_snoc)
next
  assume "unrounded 0 (cart s)"
  from unrounded_total [OF this] show "cart_total (cart s) =
      Finite (\<Sum>item\<leftarrow>cart s. finite_value (price item) * of_int (quantity item))"
    by (simp add: cart_total_def)
qed

lemma session_ok_mounted: "session_ok mounted"
  by (simp add: session_ok_def mounted_def loadMenu_def initial_def)

lemma ok_AddToCart: "session_ok s \<Longrightarrow> session_ok (step s (AddToCart p))"
  by (simp add: step_def session_ok_def handleAddToCart_def)

lemma ok_UpdateQuantity: "session_ok s \<Longrightarrow> session_ok (step s (UpdateQuantity i n))"
  by (simp add: step_def session_ok_def handleUpdateQuantity_def handleRemoveItem_def
      removeItem_def setQuantity_def)

lemma ok_RemoveItem: "session_ok s \<Longrightarrow> session_ok (step s (RemoveItem i))"
  by (simp add: step_def session_ok_def handleRemoveItem_def removeItem_def)

lemma ok_PlaceAnotherOrder: "session_ok s \<Longrightarrow> session_ok (step s PlaceAnotherOrder)"
  by (simp add: step_def session_ok_def)


lemma ok_Submit: "session_ok s \<Longrightarrow> session_ok (step s (Submit nm addr))"
  by (auto simp: step_def session_ok_def handleSubmit_def handleOrderSubmit_def orderPayload_def
      split: if_splits)

lemma ok_MenuResolved: "session_ok s \<Longrightarrow> session_ok (step s (MenuResolved data))"
  by (simp add: step_def session_ok_def loadMenu_resolved_def)

lemma ok_MenuRejected: "session_ok s \<Longrightarrow> session_ok (step s (MenuRejected err))"
  by (simp add: step_def session_ok_def loadMenu_rejected_def)

lemma in_flight:
  assumes "session_ok s" "k < length (awaiting s)"
  obtains d where "k = 0" "isSubmitting s" "awaiting s = [d]"
    "form_total d = total (last (submitCalls s))"
    "submissionError s = None" "orderConfirmation s = None" "\<not> isPizzaLoading s"
proof -
  from assms have sub: "isSubmitting s" and len: "length (awaiting s) = 1"
    by (auto simp: session_ok_def split: if_splits)
  then obtain d where d: "awaiting s = [d]"
    by (cases "awaiting s") simp_all
  from assms(1) sub d have "form_total d = total (last (submitCalls s))"
    "submissionError s = None" "orderConfirmation s = None" "\<not> isPizzaLoading s"
    by (auto simp: session_ok_def)
  with that [of d] assms(2) sub d show thesis by simp
qed

lemma step_OrderResolved:
  assumes "session_ok s" "k < length (awaiting s)"
  shows "step s (OrderResolved k r) =
     s\<lparr>orderConfirmation :=
         Some \<lparr>conf_orderId = orderId r, conf_timestamp = timestamp r,
               conf_total = total (last (submitCalls s))\<rparr>,
       cart := [], isSubmitting := False, awaiting := []\<rparr>"
  using assms(1,2)
  by (rule in_flight) (simp add: step_def submit_resolved_def)

lemma step_OrderRejected:
  assumes "session_ok s" "k < length (awaiting s)"
  shows "step s (OrderRejected k err) =
     s\<lparr>submissionError := Some (failure_message err), isSubmitting := False, awaiting := []\<rparr>"
  using assms(1,2)
  by (rule in_flight) (simp add: step_def submit_rejected_def)

lemma ok_OrderResolved: "session_ok s \<Longrightarrow> session_ok (step s (OrderResolved k r))"
proof (cases "k < length (awaiting s)")
  case True
  assume ok: "session_ok s"
  from ok True have "isSubmitting s" "orderConfirmation s = None" "\<not> isPizzaLoading s"
    by (auto elim: in_flight)
  with ok show ?thesis
    unfolding step_OrderResolved [OF ok True] by (simp add: session_ok_def)
next
  case False
  assume "session_ok s"
  with False show ?thesis by (simp add: step_def)
qed

lemma ok_OrderRejected: "session_ok s \<Longrightarrow> session_ok (step s (OrderRejected k err))"
proof (cases "k < length (awaiting s)")
  case True
  assume ok: "session_ok s"
  from ok True have "isSubmitting s" "orderConfirmation s = None" "\<not> isPizzaLoading s"
    by (auto elim: in_flight)
  with ok show ?thesis
    unfolding step_OrderRejected [OF ok True] by (simp add: session_ok_def)
next
  case False
  assume "session_ok s"
  with False show ?thesis by (simp add: step_def)
qed

lemma session_ok_step: "session_ok s \<Longrightarrow> session_ok (step s e)"
  by (cases e)
    (simp_all only: ok_AddToCart ok_UpdateQuantity ok_RemoveItem ok_Submit ok_PlaceAnotherOrder
      ok_MenuResolved ok_MenuRejected ok_OrderResolved ok_OrderRejected)

lemma run_snoc: "run s (es @ [e]) = step (run s es) e"
  by (simp add: run_def)

lemma run_append: "run s (es @ es') = run (run s es) es'"
  by (simp add: run_def)

lemma session_ok_run: "session_ok s \<Longrightarrow> session_ok (run s es)"
proof (induction es rule: rev_induct)
  case Nil
  then show ?case by (simp add: run_def)
next
  case (snoc e es)
  then show ?case by (simp add: run_snoc session_ok_step)
qed

lemma session_ok_reachable: "session_ok (run mounted es)"
  by (rule session_ok_run) (rule session_ok_mounted)

section \<open>Properties: the scenario, the menu and the checkout\<close>

lemma ordering_state:
  "run mounted ordering =
     \<lparr>pizzas = catalog, cart = [with_quantity item_A 2, with_quantity item_B 1],
      isPizzaLoading = False, pizzaError = None, isSubmitting = False, submissionError = None,
      orderConfirmation = None, fetchCalls = 1, menuAwaiting = 0, submitCalls = [],
      awaiting = []\<rparr>"
  by (simp add: run_def step_def mounted_def initial_def loadMenu_def ordering_def catalog_def
      loadMenu_resolved_def handleAddToCart_def addToCart_def find_item_def truthy_def
      item_A_def item_B_def with_quantity_update)

lemma blank: "list_all trimmable (js ''  '')" "\<not> list_all trimmable (js ''Ann'')"
  "\<not> list_all trimmable (js ''1 Main St'')"
  by (simp_all add: js_def trimmable_def is_white_space_def is_line_terminator_def)

lemma submitting_state:
  "run mounted submitting =
     \<lparr>pizzas = catalog, cart = [with_quantity item_A 2, with_quantity item_B 1],
      isPizzaLoading = False, pizzaError = None, isSubmitting = True, submissionError = None,
      orderConfirmation = None, fetchCalls = 1, menuAwaiting = 0,
      submitCalls =
        [\<lparr>customerName = js ''Ann'', address = js ''1 Main St'',
          items = [\<lparr>pizzaId = 1, line_quantity = 2\<rparr>, \<lparr>pizzaId = 2, line_quantity = 1\<rparr>],
          total = Finite 25\<rparr>],
      awaiting =
        [\<lparr>form_name = js ''Ann'', form_address = js ''1 Main St'', form_total = Finite 25\<rparr>]\<rparr>"
  by (simp add: submitting_def run_append ordering_state [unfolded run_def] run_def step_def
      handleSubmit_def canSubmit_iff blank handleOrderSubmit_def orderPayload_def cart_total_def
      item_A_def item_B_def)

theorem submit_guard_witness:
  "(cart (run mounted ordering) = [] \<or> list_all trimmable (js ''  '') \<or>
      list_all trimmable (js ''1 Main St'') \<or> isSubmitting (run mounted ordering)) \<and>
   handleSubmit (js ''  '') (js ''1 Main St'') (run mounted ordering) = run mounted ordering \<and>
   \<not> (cart (run mounted ordering) = [] \<or> list_all trimmable (js ''Ann'') \<or>
      list_all trimmable (js ''1 Main St'') \<or> isSubmitting (run mounted ordering)) \<and>
   isSubmitting (handleSubmit (js ''Ann'') (js ''1 Main St'') (run mounted ordering)) \<and>
   length (submitCalls (handleSubmit (js ''Ann'') (js ''1 Main St'') (run mounted ordering))) = 1"
  using submit_guard [where s = "run mounted ordering" and nm = "js ''  ''" and addr = "js ''1 Main St''"]
    submit_guard [where s = "run mounted ordering" and nm = "js ''Ann''" and addr = "js ''1 Main St''"]
  by (simp add: blank) (simp add: ordering_state)

theorem submit_payload_witness:
  "cart (run mounted ordering) \<noteq> [] \<and> \<not> list_all trimmable (js ''Ann'') \<and>
   \<not> list_all trimmable (js ''1 Main St'') \<and> \<not> isSubmitting (run mounted ordering) \<and>
   submitCalls (handleSubmit (js ''Ann'') (js ''1 Main St'') (run mounted ordering)) =
     [\<lparr>customerName = js ''Ann'', address = js ''1 Main St'',
       items = [\<lparr>pizzaId = 1, line_quantity = 2\<rparr>, \<lparr>pizzaId = 2, line_quantity = 1\<rparr>],
       total = Finite 25\<rparr>] \<and>
   unrounded 0 (cart (run mounted ordering)) \<and>
   cart_total (cart (run mounted ordering)) = Finite 25 \<and>
   submitCalls (step (run mounted submitting) (OrderResolved 0 receipt)) =
     submitCalls (run mounted submitting)"
proof -
  have h: "cart (run mounted ordering) \<noteq> []" "\<not> isSubmitting (run mounted ordering)"
    by (simp_all add: ordering_state)
  have u: "unrounded 0 (cart (run mounted ordering))"
    by (simp add: ordering_state item_A_def item_B_def)
  note p = submit_payload [OF h(1) blank(2) blank(3) h(2)]
  from p have c: "submitCalls (step (run mounted submitting) (OrderResolved 0 receipt)) =
      submitCalls (run mounted submitting)"
    by simp
  from p u have t: "cart_total (cart (run mounted ordering)) = Finite 25"
    by (simp add: ordering_state item_A_def item_B_def)
  from p have "submitCalls (handleSubmit (js ''Ann'') (js ''1 Main St'') (run mounted ordering)) =
     [\<lparr>customerName = js ''Ann'', address = js ''1 Main St'',
       items = [\<lparr>pizzaId = 1, line_quantity = 2\<rparr>, \<lparr>pizzaId = 2, line_quantity = 1\<rparr>],
       total = cart_total (cart (run mounted ordering))\<rparr>]"
    by (simp add: ordering_state item_A_def item_B_def)
  with h blank u c t show ?thesis by simp
qed

text \<open>
  Claim C6, as stated, fails: the total sent need not be the sum of price times quantity.
  With one line of three items whose price is written \<open>0.1\<close>, the product is rounded,
  and the total sent is not three times the price.
\<close>

theorem submit_total_counterexample:
  "price item_C = Finite (3602879701896397 / 36028797018963968) \<and>
   map items (submitCalls (run mounted tenths)) = [[\<lparr>pizzaId = 3, line_quantity = 3\<rparr>]] \<and>
   map total (submitCalls (run mounted tenths)) =
     [Finite (5404319552844596 / 18014398509481984)] \<and>
   (3602879701896397 / 36028797018963968 :: rat) * 3 \<noteq> 5404319552844596 / 18014398509481984"
proof -
  have i: "id' item_C = 3" "price item_C = Finite (3602879701896397 / 36028797018963968)"
    by (simp_all add: item_C_def literal_tenth)
  have c: "run mounted [MenuResolved [item_C], AddToCart item_C, AddToCart item_C, AddToCart item_C] =
      \<lparr>pizzas = [item_C], cart = [with_quantity item_C 3],
       isPizzaLoading = False, pizzaError = None, isSubmitting = False, submissionError = None,
       orderConfirmation = None, fetchCalls = 1, menuAwaiting = 0, submitCalls = [],
       awaiting = []\<rparr>"
    by (simp add: run_def step_def mounted_def initial_def loadMenu_def loadMenu_resolved_def
        handleAddToCart_def addToCart_def find_item_def truthy_def with_quantity_update)
  have t: "cart_total [with_quantity item_C 3] = Finite (5404319552844596 / 18014398509481984)"
    by (simp add: cart_total_def i three_tenths)
  have "run mounted tenths =
      step (run mounted [MenuResolved [item_C], AddToCart item_C, AddToCart item_C, AddToCart item_C])
        (Submit (js ''Ann'') (js ''1 Main St''))"
    by (simp add: tenths_def run_def)
  then have "submitCalls (run mounted tenths) =
      [\<lparr>customerName = js ''Ann'', address = js ''1 Main St'',
        items = [\<lparr>pizzaId = 3, line_quantity = 3\<rparr>],
        total = Finite (5404319552844596 / 18014398509481984)\<rparr>]"
    by (simp add: c step_def handleSubmit_def canSubmit_iff blank handleOrderSubmit_def
        orderPayload_def t i)
  with i show ?thesis by simp
qed

lemma menu_frozen_step:
  assumes "session_ok s" "\<not> isPizzaLoading s"
  shows "pizzas (step s e) = pizzas s \<and> pizzaError (step s e) = pizzaError s \<and>
    \<not> isPizzaLoading (step s e)"
  using assms
  by (cases e)
    (simp_all add: step_def session_ok_def handleAddToCart_def handleUpdateQuantity_def
      handleRemoveItem_def handleSubmit_def handleOrderSubmit_def submit_resolved_def
      submit_rejected_def split: list.splits)

lemma menu_frozen_run:
  assumes "session_ok s" "\<not> isPizzaLoading s"
  shows "pizzas (run s es) = pizzas s \<and> pizzaError (run s es) = pizzaError s \<and>
    \<not> isPizzaLoading (run s es)"
proof (induction es rule: rev_induct)
  case Nil
  show ?case using assms(2) by (simp add: run_def)
next
  case (snoc e es)
  with menu_frozen_step [of "run s es" e] assms(1) show ?case
    by (simp add: run_snoc session_ok_run)
qed

text \<open>
  Claim C9. A mounted \<open>App\<close> is loading and has called \<open>fetchPizzas\<close> once, and after any
  events the number of calls is still one. While loading, the resolution of the call
  gives the loaded menu and its rejection the failed one. Once the menu is not loading
  any more, whatever events follow, the menu, the menu error and the loading flag stay
  as they are, no run of \<open>loadMenu\<close> is suspended, and no further call is made.
\<close>

theorem menu_fetched_once:
  "isPizzaLoading mounted \<and> fetchCalls mounted = 1 \<and> menuAwaiting mounted = 1
   \<and> fetchCalls (run mounted es) = 1
   \<and> (isPizzaLoading (run mounted es) \<longrightarrow>
        step (run mounted es) (MenuResolved data) =
          (run mounted es)\<lparr>pizzas := data, isPizzaLoading := False, menuAwaiting := 0\<rparr> \<and>
        step (run mounted es) (MenuRejected err) =
          (run mounted es)\<lparr>pizzaError := Some (js ''Failed to load pizza menu. Please try again later.''),
            isPizzaLoading := False, menuAwaiting := 0\<rparr>)
   \<and> (\<not> isPizzaLoading (run mounted es) \<longrightarrow>
        pizzas (run mounted (es @ es')) = pizzas (run mounted es) \<and>
        pizzaError (run mounted (es @ es')) = pizzaError (run mounted es) \<and>
        \<not> isPizzaLoading (run mounted (es @ es')) \<and>
        menuAwaiting (run mounted (es @ es')) = 0 \<and>
        fetchCalls (run mounted (es @ es')) = 1)"
proof -
  have ok: "session_ok (run mounted es)" "session_ok (run mounted (es @ es'))"
    by (rule session_ok_reachable)+
  have m: "isPizzaLoading mounted \<and> fetchCalls mounted = 1 \<and> menuAwaiting mounted = 1"
    by (simp add: mounted_def loadMenu_def initial_def)
  have f: "fetchCalls (run mounted es) = 1" "fetchCalls (run mounted (es @ es')) = 1"
    using ok by (simp_all add: session_ok_def)
  have l: "step (run mounted es) (MenuResolved data) =
          (run mounted es)\<lparr>pizzas := data, isPizzaLoading := False, menuAwaiting := 0\<rparr> \<and>
        step (run mounted es) (MenuRejected err) =
          (run mounted es)\<lparr>pizzaError := Some (js ''Failed to load pizza menu. Please try again later.''),
            isPizzaLoading := False, menuAwaiting := 0\<rparr>"
    if "isPizzaLoading (run mounted es)"
    using ok(1) that by (simp add: session_ok_def step_def loadMenu_resolved_def loadMenu_rejected_def)
  have t: "pizzas (run mounted (es @ es')) = pizzas (run mounted es) \<and>
        pizzaError (run mounted (es @ es')) = pizzaError (run mounted es) \<and>
        \<not> isPizzaLoading (run mounted (es @ es')) \<and>
        menuAwaiting (run mounted (es @ es')) = 0"
    if n: "\<not> isPizzaLoading (run mounted es)"
  proof -
    from menu_frozen_run [OF ok(1) n, of es']
    have *: "pizzas (run mounted (es @ es')) = pizzas (run mounted es) \<and>
        pizzaError (run mounted (es @ es')) = pizzaError (run mounted es) \<and>
        \<not> isPizzaLoading (run mounted (es @ es'))"
      by (simp add: run_append)
    with ok(2) have "menuAwaiting (run mounted (es @ es')) = 0"
      by (simp add: session_ok_def)
    with * show ?thesis by simp
  qed
  from m f l t show ?thesis by blast
qed

theorem menu_fetched_once_witness:
  "isPizzaLoading (run mounted []) \<and>
   pizzas (step (run mounted []) (MenuResolved MOCK_PIZZAS)) = MOCK_PIZZAS \<and>
   \<not> isPizzaLoading (run mounted [MenuResolved catalog]) \<and>
   pizzas (run mounted ([MenuResolved catalog] @ [MenuResolved [], MenuRejected server_rejection,
       AddToCart item_A])) = catalog \<and>
   fetchCalls (run mounted ([MenuResolved catalog] @ [MenuResolved [], MenuRejected server_rejection,
       AddToCart item_A])) = 1"
proof -
  have a: "isPizzaLoading (run mounted [])"
    by (simp add: run_def mounted_def loadMenu_def initial_def)
  have b: "\<not> isPizzaLoading (run mounted [MenuResolved catalog])"
    "pizzas (run mounted [MenuResolved catalog]) = catalog"
    by (simp_all add: run_def step_def mounted_def loadMenu_def initial_def loadMenu_resolved_def)
  from menu_fetched_once [where es = "[]" and data = MOCK_PIZZAS]
    menu_fetched_once [where es = "[MenuResolved catalog]"
      and es' = "[MenuResolved [], MenuRejected server_rejection, AddToCart item_A]"]
    a b show ?thesis by simp
qed

lemma confirmed_enabled:
  assumes "session_ok s" "orderConfirmation s \<noteq> None" "enabled s e"
  shows "e = PlaceAnotherOrder"
  using assms by (cases e) (auto simp: session_ok_def split: if_splits)

text \<open>
  Claim C8. In a reachable session that holds a confirmation, the one event that can
  happen is \<open>Place Another Order\<close>. It clears the confirmation and changes nothing else;
  the session it leaves has no confirmation, is not submitting, and has an empty cart and
  no submission error.
\<close>

theorem confirmed_only_reset:
  assumes "orderConfirmation (run mounted es) \<noteq> None"
  shows "(\<forall>e. enabled (run mounted es) e \<longleftrightarrow> e = PlaceAnotherOrder)
    \<and> step (run mounted es) PlaceAnotherOrder = (run mounted es)\<lparr>orderConfirmation := None\<rparr>
    \<and> orderConfirmation (step (run mounted es) PlaceAnotherOrder) = None
    \<and> \<not> isSubmitting (step (run mounted es) PlaceAnotherOrder)
    \<and> cart (step (run mounted es) PlaceAnotherOrder) = []
    \<and> submissionError (step (run mounted es) PlaceAnotherOrder) = None"
proof -
  have ok: "session_ok (run mounted es)" by (rule session_ok_reachable)
  have "enabled (run mounted es) e \<longleftrightarrow> e = PlaceAnotherOrder" for e
    using confirmed_enabled [OF ok assms, of e] assms by auto
  moreover have "step (run mounted es) PlaceAnotherOrder = (run mounted es)\<lparr>orderConfirmation := None\<rparr>"
    using assms by (simp add: step_def)
  moreover have "\<not> isSubmitting (run mounted es)" "cart (run mounted es) = []"
    "submissionError (run mounted es) = None"
    using ok assms by (auto simp: session_ok_def)
  ultimately show ?thesis by simp
qed

lemma confirmed_state:
  "run mounted (submitting @ [OrderResolved 0 receipt]) =
     \<lparr>pizzas = catalog, cart = [],
      isPizzaLoading = False, pizzaError = None, isSubmitting = False, submissionError = None,
      orderConfirmation =
        Some \<lparr>conf_orderId = orderId receipt, conf_timestamp = timestamp receipt, conf_total = Finite 25\<rparr>,
      fetchCalls = 1, menuAwaiting = 0,
      submitCalls =
        [\<lparr>customerName = js ''Ann'', address = js ''1 Main St'',
          items = [\<lparr>pizzaId = 1, line_quantity = 2\<rparr>, \<lparr>pizzaId = 2, line_quantity = 1\<rparr>],
          total = Finite 25\<rparr>],
      awaiting = []\<rparr>"
  by (simp add: run_snoc submitting_state step_def submit_resolved_def)

theorem confirmed_only_reset_witness:
  "orderConfirmation (run mounted (submitting @ [OrderResolved 0 receipt])) \<noteq> None \<and>
   \<not> enabled (run mounted (submitting @ [OrderResolved 0 receipt])) (AddToCart item_A) \<and>
   cart (run mounted submitting) = [with_quantity item_A 2, with_quantity item_B 1] \<and>
   cart (step (run mounted (submitting @ [OrderResolved 0 receipt])) PlaceAnotherOrder) = [] \<and>
   orderConfirmation (step (run mounted (submitting @ [OrderResolved 0 receipt])) PlaceAnotherOrder)
     = None"
proof -
  have h: "orderConfirmation (run mounted (submitting @ [OrderResolved 0 receipt])) \<noteq> None"
    by (simp add: confirmed_state)
  from confirmed_only_reset [OF h] h show ?thesis
    by (elim conjE) (simp add: submitting_state)
qed

text \<open>
  Claim C3. When the call of a submission in flight resolves, in a reachable session, one
  step sets the confirmation to the order id and the timestamp of the response and the
  total of the payload that was sent, empties the cart and ends the submission; the
  submission error is empty.
\<close>

theorem submit_success:
  assumes "k < length (awaiting (run mounted es))"
  shows "orderConfirmation (step (run mounted es) (OrderResolved k r)) =
      Some \<lparr>conf_orderId = orderId r, conf_timestamp = timestamp r,
            conf_total = total (last (submitCalls (run mounted es)))\<rparr>
    \<and> cart (step (run mounted es) (OrderResolved k r)) = []
    \<and> submissionError (step (run mounted es) (OrderResolved k r)) = None
    \<and> \<not> isSubmitting (step (run mounted es) (OrderResolved k r))
    \<and> awaiting (step (run mounted es) (OrderResolved k r)) = []
    \<and> submitCalls (step (run mounted es) (OrderResolved k r)) = submitCalls (run mounted es)"
proof -
  have ok: "session_ok (run mounted es)" by (rule session_ok_reachable)
  from ok assms have "submissionError (run mounted es) = None"
    by (auto elim: in_flight)
  then show ?thesis
    unfolding step_OrderResolved [OF ok assms] by simp
qed

theorem submit_success_witness:
  "(0::nat) < length (awaiting (run mounted submitting)) \<and>
   orderConfirmation (step (run mounted submitting) (OrderResolved 0 receipt)) =
     Some \<lparr>conf_orderId = js ''ORD-1'', conf_timestamp = js ''2024-01-01T00:00:00.000Z'',
           conf_total = Finite 25\<rparr> \<and>
   cart (run mounted submitting) \<noteq> [] \<and>
   cart (step (run mounted submitting) (OrderResolved 0 receipt)) = [] \<and>
   submissionError (step (run mounted submitting) (OrderResolved 0 receipt)) = None"
proof -
  have h: "0 < length (awaiting (run mounted submitting))"
    by (simp add: submitting_state)
  from submit_success [OF h, of receipt] h show ?thesis
    by (simp add: submitting_state receipt_def)
qed

lemma keeps_cart_step: "keeps_cart e \<Longrightarrow> cart (step s e) = cart s"
  by (cases e)
    (simp_all add: step_def handleSubmit_def handleOrderSubmit_def loadMenu_resolved_def
      loadMenu_rejected_def submit_rejected_def split: list.splits nat.splits)

lemma keeps_cart_run: "list_all keeps_cart es \<Longrightarrow> cart (run s es) = cart s"
proof (induction es rule: rev_induct)
  case Nil
  show ?case by (simp add: run_def)
next
  case (snoc e es)
  then show ?case by (simp add: run_snoc keeps_cart_step)
qed

lemma failure_message_cases:
  "failure_message err =
     (case message err of
        None \<Rightarrow> js ''Order submission failed: Unknown Server Error''
      | Some m \<Rightarrow> if m = [] then js ''Order submission failed: Unknown Server Error''
                  else js ''Order submission failed: '' @ m)"
  by (simp add: failure_message_def or_else_def js_def split: option.splits)

lemma failure_message_not_empty: "failure_message err \<noteq> []"
  by (simp add: failure_message_def js_def)

text \<open>
  Claim C2, as stated, fails: the cart after a failed submission need not be the cart at
  the moment of Submit. In the scenario, item B is added while the submission is in
  flight; when the submission then fails, the cart holds two of B, not one.
\<close>

theorem submit_failure_counterexample:
  "0 < length (awaiting (run mounted (submitting @ [AddToCart item_B]))) \<and>
   cart (run mounted ordering) = [with_quantity item_A 2, with_quantity item_B 1] \<and>
   cart (run mounted (submitting @ [AddToCart item_B, OrderRejected 0 server_rejection])) =
     [with_quantity item_A 2, with_quantity item_B 2] \<and>
   cart (run mounted (submitting @ [AddToCart item_B, OrderRejected 0 server_rejection])) \<noteq>
     cart (run mounted ordering)"
proof -
  have a: "run mounted (submitting @ [AddToCart item_B]) =
      (run mounted submitting)\<lparr>cart := [with_quantity item_A 2, with_quantity item_B 2]\<rparr>"
    by (simp add: run_snoc submitting_state step_def catalog_def truthy_def handleAddToCart_def
        addToCart_def find_item_def item_A_def item_B_def with_quantity_update)
  have "run mounted (submitting @ [AddToCart item_B, OrderRejected 0 server_rejection]) =
      step (run mounted (submitting @ [AddToCart item_B])) (OrderRejected 0 server_rejection)"
    by (simp add: run_def)
  then have b: "cart (run mounted (submitting @ [AddToCart item_B, OrderRejected 0 server_rejection])) =
      [with_quantity item_A 2, with_quantity item_B 2]"
    by (simp add: a submitting_state step_def submit_rejected_def)
  have c: "with_quantity item_B 2 \<noteq> with_quantity item_B 1"
    by (simp add: with_quantity_def pizza.defs cart_item.defs)
  from a b c show ?thesis
    by (simp add: submitting_state ordering_state)
qed

text \<open>
  Claim C2, amended. When the call of a submission in flight rejects, in a reachable
  session, one step ends the submission and sets the submission error to
  \<open>Order submission failed: \<close> followed by the rejection's message, or by
  \<open>Unknown Server Error\<close> when the message is missing or empty; the error is never
  empty. The step leaves the cart as it was just before it, so the cart is the cart at
  the moment of Submit whenever no cart operation and no resolved order came in between,
  and there is no confirmation.
\<close>

theorem submit_failure:
  assumes "k < length (awaiting (run mounted es))"
  shows "\<not> isSubmitting (step (run mounted es) (OrderRejected k err))
    \<and> awaiting (step (run mounted es) (OrderRejected k err)) = []
    \<and> (\<forall>m. message err = Some m \<and> m \<noteq> [] \<longrightarrow>
          submissionError (step (run mounted es) (OrderRejected k err)) =
            Some (js ''Order submission failed: '' @ m))
    \<and> (message err = None \<or> message err = Some [] \<longrightarrow>
          submissionError (step (run mounted es) (OrderRejected k err)) =
            Some (js ''Order submission failed: Unknown Server Error''))
    \<and> submissionError (step (run mounted es) (OrderRejected k err)) \<noteq> None
    \<and> submissionError (step (run mounted es) (OrderRejected k err)) \<noteq> Some []
    \<and> cart (step (run mounted es) (OrderRejected k err)) = cart (run mounted es)
    \<and> orderConfirmation (step (run mounted es) (OrderRejected k err)) = None
    \<and> (\<forall>es0 nm addr es1. es = es0 @ Submit nm addr # es1 \<and> list_all keeps_cart es1 \<longrightarrow>
          cart (step (run mounted es) (OrderRejected k err)) = cart (run mounted es0))"
proof -
  have ok: "session_ok (run mounted es)" by (rule session_ok_reachable)
  from ok assms have n: "orderConfirmation (run mounted es) = None"
    by (auto elim: in_flight)
  have c: "cart (run mounted es) = cart (run mounted es0)"
    if "es = es0 @ Submit nm addr # es1" "list_all keeps_cart es1" for es0 nm addr es1
  proof -
    from that have "list_all keeps_cart (Submit nm addr # es1)" by simp
    then have "cart (run (run mounted es0) (Submit nm addr # es1)) = cart (run mounted es0)"
      by (rule keeps_cart_run)
    with that(1) show ?thesis by (simp add: run_append)
  qed
  have e1: "\<forall>m. message err = Some m \<and> m \<noteq> [] \<longrightarrow>
      failure_message err = js ''Order submission failed: '' @ m"
    by (simp add: failure_message_cases)
  have e2: "message err = None \<or> message err = Some [] \<longrightarrow>
      failure_message err = js ''Order submission failed: Unknown Server Error''"
    by (auto simp: failure_message_cases)
  show ?thesis
    unfolding step_OrderRejected [OF ok assms]
    using n c e1 e2 failure_message_not_empty [of err] by simp
qed

theorem submit_failure_witness:
  "(0::nat) < length (awaiting (run mounted submitting)) \<and>
   message server_rejection = Some (js ''Server rejected the order due to invalid data.'') \<and>
   js ''Server rejected the order due to invalid data.'' \<noteq> [] \<and>
   submissionError (step (run mounted submitting) (OrderRejected 0 server_rejection)) =
     Some (js ''Order submission failed: Server rejected the order due to invalid data.'') \<and>
   (message \<lparr>message = None\<rparr> = None \<or> message \<lparr>message = None\<rparr> = Some []) \<and>
   submissionError (step (run mounted submitting) (OrderRejected 0 \<lparr>message = None\<rparr>)) =
     Some (js ''Order submission failed: Unknown Server Error'') \<and>
   submitting = ordering @ Submit (js ''Ann'') (js ''1 Main St'') # [] \<and> list_all keeps_cart [] \<and>
   cart (step (run mounted submitting) (OrderRejected 0 server_rejection)) =
     [with_quantity item_A 2, with_quantity item_B 1] \<and>
   cart (run mounted ordering) = [with_quantity item_A 2, with_quantity item_B 1] \<and>
   orderConfirmation (step (run mounted submitting) (OrderRejected 0 server_rejection)) = None \<and>
   \<not> isSubmitting (step (run mounted submitting) (OrderRejected 0 server_rejection))"
proof -
  have h: "0 < length (awaiting (run mounted submitting))"
    by (simp add: submitting_state)
  have m: "message server_rejection = Some (js ''Server rejected the order due to invalid data.'')"
    "js ''Server rejected the order due to invalid data.'' \<noteq> []"
    by (simp_all add: server_rejection_def js_def)
  have j: "js ''Order submission failed: '' @ js ''Server rejected the order due to invalid data.'' =
      js ''Order submission failed: Server rejected the order due to invalid data.''"
    by (simp add: js_def)
  have s: "submitting = ordering @ Submit (js ''Ann'') (js ''1 Main St'') # []"
    by (simp add: submitting_def)
  from submit_failure [OF h, of server_rejection] submit_failure [OF h, of "\<lparr>message = None\<rparr>"]
    h m j s show ?thesis
    by (elim conjE) (simp add: submitting_state ordering_state)
qed





end
